theory Spec2Isabelle
  imports Main "HOL-Library.Word"
begin

section \<open>JavaScript strings\<close>

text \<open>
  A JavaScript string is a sequence of UTF-16 code units. The regular expressions of
  \<^verbatim>\<open>extension.ts\<close> carry no \<^verbatim>\<open>u\<close> flag, so they too work on code units.
\<close>

type_synonym cu = "16 word"
type_synonym jsstring = "cu list"

text \<open>An ASCII literal of the source, as code units.\<close>

definition ascii :: "string \<Rightarrow> jsstring" where
  "ascii s = map (\<lambda>c. of_nat (of_char c)) s"

text \<open>
  ECMAScript \<^verbatim>\<open>LineTerminator\<close>: LF, CR, LS (U+2028), PS (U+2029).
\<close>

definition isLineTerminator :: "cu \<Rightarrow> bool" where
  "isLineTerminator c \<longleftrightarrow> c = 0x000A \<or> c = 0x000D \<or> c = 0x2028 \<or> c = 0x2029"

text \<open>
  ECMAScript \<^verbatim>\<open>WhiteSpace\<close> together with \<^verbatim>\<open>LineTerminator\<close>: what
  \<^verbatim>\<open>String.prototype.trim\<close> strips and what the class \<^verbatim>\<open>\s\<close> matches.
  TAB, LF, VT, FF, CR, SP, NBSP, U+1680, U+2000..U+200A, LS, PS, U+202F, U+205F, U+3000,
  U+FEFF.
\<close>

definition isWhiteSpace :: "cu \<Rightarrow> bool" where
  "isWhiteSpace c \<longleftrightarrow>
     c = 0x0009 \<or> c = 0x000A \<or> c = 0x000B \<or> c = 0x000C \<or> c = 0x000D \<or> c = 0x0020 \<or>
     c = 0x00A0 \<or> c = 0x1680 \<or> (0x2000 \<le> c \<and> c \<le> 0x200A) \<or> c = 0x2028 \<or> c = 0x2029 \<or>
     c = 0x202F \<or> c = 0x205F \<or> c = 0x3000 \<or> c = 0xFEFF"

text \<open>\<^verbatim>\<open>s.trim()\<close>\<close>

definition js_trim :: "jsstring \<Rightarrow> jsstring" where
  "js_trim s = rev (dropWhile isWhiteSpace (rev (dropWhile isWhiteSpace s)))"

text \<open>Truthiness of a string value (\<^verbatim>\<open>!s\<close> is its negation): the empty string is falsy.\<close>

definition truthy :: "jsstring \<Rightarrow> bool" where
  "truthy s \<longleftrightarrow> s \<noteq> []"

text \<open>
  Truthiness of a value that may be \<^verbatim>\<open>undefined\<close> or \<^verbatim>\<open>null\<close> (\<open>None\<close>).
\<close>

definition truthy_opt :: "jsstring option \<Rightarrow> bool" where
  "truthy_opt v \<longleftrightarrow> (case v of None \<Rightarrow> False | Some s \<Rightarrow> truthy s)"

text \<open>\<^verbatim>\<open>a || b\<close> on optional strings, with a string as the last alternative.\<close>

definition or_else :: "jsstring option \<Rightarrow> jsstring \<Rightarrow> jsstring" where
  "or_else v d = (case v of None \<Rightarrow> d | Some s \<Rightarrow> if truthy s then s else d)"

section \<open>The regular expressions of the source\<close>

text \<open>
  Both patterns of \<^verbatim>\<open>extractTitle\<close> are sequences of assertions, single character
  classes and greedy \<^verbatim>\<open>+\<close> repetitions of a character class, one of them inside the
  capture group 1. The matcher below is the backtracking matcher of ECMAScript for that
  fragment: a repetition first takes the longest run and gives code units back one at a
  time while the rest of the pattern fails.
\<close>

datatype atom =
    Bol                      \<comment> \<open>\<^verbatim>\<open>^\<close>\<close>
  | Eol                      \<comment> \<open>\<^verbatim>\<open>$\<close>\<close>
  | Chr "cu \<Rightarrow> bool"        \<comment> \<open>one code unit of a class\<close>
  | Plus "cu \<Rightarrow> bool"       \<comment> \<open>\<^verbatim>\<open>c+\<close>, greedy\<close>
  | GroupPlus "cu \<Rightarrow> bool"  \<comment> \<open>\<^verbatim>\<open>(c+)\<close>, greedy, capture group 1\<close>

record regex =
  atoms :: "atom list"
  multiline :: bool

text \<open>
  \<^verbatim>\<open>^\<close> holds at the start of the input and, with the flag \<^verbatim>\<open>m\<close>, after a line
  terminator; \<^verbatim>\<open>$\<close> holds at the end of the input and, with \<^verbatim>\<open>m\<close>, before a line
  terminator. \<open>prev\<close> is the code unit before the current position.
\<close>

definition atLineStart :: "bool \<Rightarrow> cu option \<Rightarrow> bool" where
  "atLineStart ml prev = (case prev of None \<Rightarrow> True | Some p \<Rightarrow> ml \<and> isLineTerminator p)"

definition atLineEnd :: "bool \<Rightarrow> jsstring \<Rightarrow> bool" where
  "atLineEnd ml s = (case s of [] \<Rightarrow> True | x # _ \<Rightarrow> ml \<and> isLineTerminator x)"

text \<open>
  \<open>tryLens f n\<close>: the first success of \<open>f\<close> among the lengths \<open>n, n - 1, ..., 1\<close>, the
  order in which a greedy \<^verbatim>\<open>+\<close> backtracks.
\<close>

fun tryLens :: "(nat \<Rightarrow> 'a option) \<Rightarrow> nat \<Rightarrow> 'a option" where
  "tryLens f 0 = None"
| "tryLens f (Suc k) = (case f (Suc k) of Some r \<Rightarrow> Some r | None \<Rightarrow> tryLens f k)"

text \<open>
  \<open>matchAtoms ml as prev s g\<close> matches the atoms \<open>as\<close> at the position whose preceding
  code unit is \<open>prev\<close> and whose remaining input is \<open>s\<close>; \<open>g\<close> is capture group 1 so far.
  The result is the capture group 1 of the match (\<open>None\<close> inside: \<^verbatim>\<open>undefined\<close>).
\<close>

fun matchAtoms :: "bool \<Rightarrow> atom list \<Rightarrow> cu option \<Rightarrow> jsstring \<Rightarrow> jsstring option
    \<Rightarrow> jsstring option option" where
  "matchAtoms ml [] prev s g = Some g"
| "matchAtoms ml (Bol # r) prev s g =
     (if atLineStart ml prev then matchAtoms ml r prev s g else None)"
| "matchAtoms ml (Eol # r) prev s g =
     (if atLineEnd ml s then matchAtoms ml r prev s g else None)"
| "matchAtoms ml (Chr c # r) prev s g =
     (case s of [] \<Rightarrow> None
      | x # xs \<Rightarrow> if c x then matchAtoms ml r (Some x) xs g else None)"
| "matchAtoms ml (Plus c # r) prev s g =
     tryLens (\<lambda>k. matchAtoms ml r (Some (s ! (k - 1))) (drop k s) g)
       (length (takeWhile c s))"
| "matchAtoms ml (GroupPlus c # r) prev s g =
     tryLens (\<lambda>k. matchAtoms ml r (Some (s ! (k - 1))) (drop k s) (Some (take k s)))
       (length (takeWhile c s))"

text \<open>
  \<^verbatim>\<open>RegExp.prototype.exec\<close> without the flags \<^verbatim>\<open>g\<close> and \<^verbatim>\<open>y\<close>: the match at the
  leftmost start position that has one.
\<close>

fun execFrom :: "regex \<Rightarrow> cu option \<Rightarrow> jsstring \<Rightarrow> jsstring option option" where
  "execFrom re prev [] = matchAtoms (multiline re) (atoms re) prev [] None"
| "execFrom re prev (x # xs) =
     (case matchAtoms (multiline re) (atoms re) prev (x # xs) None of
        Some g \<Rightarrow> Some g
      | None \<Rightarrow> execFrom re (Some x) xs)"

text \<open>
  \<^verbatim>\<open>s.match(re)\<close>: \<open>None\<close> is \<^verbatim>\<open>null\<close>, \<open>Some g\<close> a match array whose element 1 is \<open>g\<close>.
\<close>

definition js_match :: "regex \<Rightarrow> jsstring \<Rightarrow> jsstring option option" where
  "js_match re s = execFrom re None s"

text \<open>\<^verbatim>\<open>/^#\s+(.+)$/m\<close>; the dot matches every code unit but the line terminators.\<close>

definition titleRegex :: regex where
  "titleRegex =
     \<lparr>atoms = [Bol, Chr (\<lambda>c. c = 0x0023), Plus isWhiteSpace,
               GroupPlus (\<lambda>c. \<not> isLineTerminator c), Eol],
      multiline = True\<rparr>"

text \<open>
  \<^verbatim>\<open>/([^/\\]+)\.md$/i\<close>. The flag \<^verbatim>\<open>i\<close> compares canonicalised (upper-cased) code
  units: \<^verbatim>\<open>m\<close> matches m and M, \<^verbatim>\<open>d\<close> matches d and D; no other code unit upper-cases
  to M, D, the dot, the slash or the backslash.
\<close>

definition notSeparator :: "cu \<Rightarrow> bool" where
  "notSeparator c \<longleftrightarrow> c \<noteq> 0x002F \<and> c \<noteq> 0x005C"

definition fileNameRegex :: regex where
  "fileNameRegex =
     \<lparr>atoms = [GroupPlus notSeparator, Chr (\<lambda>c. c = 0x002E),
               Chr (\<lambda>c. c = 0x006D \<or> c = 0x004D), Chr (\<lambda>c. c = 0x0064 \<or> c = 0x0044), Eol],
      multiline = False\<rparr>"

section \<open>Title extraction\<close>

text \<open>
  What \<^verbatim>\<open>extractTitle\<close> reads of a \<^verbatim>\<open>vscode.TextDocument\<close>, and the language
  identifier that \<^verbatim>\<open>uploadToWeChat\<close> reads.
\<close>

record document =
  getText :: jsstring
  fileName :: jsstring
  isUntitled :: bool
  languageId :: jsstring

text \<open>The placeholder title of an unsaved document ("unnamed document", five code units).\<close>

definition untitledTitle :: jsstring where
  "untitledTitle = [0x672A, 0x547D, 0x540D, 0x6587, 0x6863]"

text \<open>
  \<^verbatim>\<open>extractTitle\<close>, lines 152 to 174. \<open>None\<close> is \<^verbatim>\<open>null\<close>. Each
  \<^verbatim>\<open>m && m[1]\<close> of the source asks for a match whose group 1 is a non-empty string.
\<close>

definition extractTitle :: "document \<Rightarrow> jsstring option" where
  "extractTitle doc =
     (let text = getText doc;
          titleMatch = js_match titleRegex text
      in if (case titleMatch of None \<Rightarrow> False | Some g \<Rightarrow> truthy_opt g)
         then (case titleMatch of Some (Some h) \<Rightarrow> Some (js_trim h) | _ \<Rightarrow> None)
         else
           let fileNameMatch = js_match fileNameRegex (fileName doc)
           in if (case fileNameMatch of None \<Rightarrow> False | Some g \<Rightarrow> truthy_opt g)
              then (case fileNameMatch of Some (Some b) \<Rightarrow> Some b | _ \<Rightarrow> None)
              else if isUntitled doc then Some untitledTitle
              else None)"

section \<open>Configuration\<close>

text \<open>\<^verbatim>\<open>interface WeChatConfig\<close>; an optional field that is \<open>None\<close> is \<^verbatim>\<open>undefined\<close>.\<close>

record WeChatConfig =
  appid :: jsstring
  appSecret :: jsstring
  author :: "jsstring option"
  digest :: "jsstring option"

text \<open>\<^verbatim>\<open>interface ApiResponse\<close>, the type the source gives the parsed response body.\<close>

record ApiData =
  media_id :: jsstring
  created_at :: int
  title :: jsstring
  content_preview :: jsstring

record ApiResponse =
  success :: bool
  data :: "ApiData option"
  message :: "jsstring option"
  error :: "jsstring option"

text \<open>
  A thrown value: an \<^verbatim>\<open>Error\<close> with its message, or anything that is not an instance
  of \<^verbatim>\<open>Error\<close>.
\<close>

datatype thrown = Error jsstring | NonError

text \<open>
  The argument of \<^verbatim>\<open>fetch\<close>. \<open>method0\<close> is the option \<^verbatim>\<open>method\<close>; \<open>body\<close> is
  the object handed to \<^verbatim>\<open>JSON.stringify\<close>: its properties in insertion order, all of
  them strings.
\<close>

record request =
  url :: jsstring
  method0 :: jsstring
  headers :: "(jsstring \<times> jsstring) list"
  body :: "(jsstring \<times> jsstring) list"

record response =
  status :: nat
  bodyText :: jsstring

text \<open>What the program does to the outside, in the order it does it.\<close>

datatype event =
    ShowErrorMessage jsstring "jsstring list"
  | ShowInformationMessage jsstring "jsstring list"
  | ExecuteCommand jsstring jsstring
  | WithProgress jsstring
  | ProgressReport nat jsstring
  | Fetch request
  | ResponseText
  | ResponseJson
  | ClipboardWriteText jsstring
  | ConsoleError jsstring thrown

text \<open>
  The host the extension runs in, as far as the source consults it: the settings under
  \<^verbatim>\<open>markdown2weixin\<close> (\<open>None\<close>: not set), the active editor's document, the
  network behind \<^verbatim>\<open>fetch\<close>, the JSON parser behind \<^verbatim>\<open>response.json()\<close> (typed
  by the cast \<^verbatim>\<open>as ApiResponse\<close>), and the item the user picks in a notification.
\<close>

record host =
  settings :: "jsstring \<Rightarrow> jsstring option"
  activeTextEditor :: "document option"
  fetch :: "request \<Rightarrow> thrown + response"
  json :: "jsstring \<Rightarrow> thrown + ApiResponse"
  pick :: "jsstring \<Rightarrow> jsstring list \<Rightarrow> jsstring option"

text \<open>\<^verbatim>\<open>config.get<string>(key, dflt)\<close>\<close>

definition config_get :: "host \<Rightarrow> jsstring \<Rightarrow> jsstring \<Rightarrow> jsstring" where
  "config_get h key dflt = (case settings h key of None \<Rightarrow> dflt | Some v \<Rightarrow> v)"

text \<open>
  "Please configure the AppID and AppSecret of the WeChat official account in the settings
  first", and the item "open settings".
\<close>

definition msgConfigure :: jsstring where
  "msgConfigure =
     [0x8BF7, 0x5148, 0x5728, 0x8BBE, 0x7F6E, 0x4E2D, 0x914D, 0x7F6E, 0x5FAE, 0x4FE1, 0x516C,
      0x4F17, 0x53F7, 0x7684] @ ascii '' AppID '' @ [0x548C] @ ascii '' AppSecret''"

definition itemOpenSettings :: jsstring where
  "itemOpenSettings = [0x6253, 0x5F00, 0x8BBE, 0x7F6E]"

text \<open>
  \<^verbatim>\<open>getConfiguration\<close>, lines 122 to 149: the credentials or \<^verbatim>\<open>null\<close>, and what it
  shows. The callback of \<^verbatim>\<open>then\<close> runs once the user has answered the notification.
\<close>

definition getConfiguration :: "host \<Rightarrow> WeChatConfig option \<times> event list" where
  "getConfiguration h =
     (let appid0 = js_trim (config_get h (ascii ''appid'') []);
          appSecret0 = js_trim (config_get h (ascii ''appSecret'') []);
          author0 = js_trim (config_get h (ascii ''author'') []);
          digest0 = js_trim (config_get h (ascii ''digest'') [])
      in if \<not> truthy appid0 \<or> \<not> truthy appSecret0
         then (None,
               ShowErrorMessage msgConfigure [itemOpenSettings] #
               (if pick h msgConfigure [itemOpenSettings] = Some itemOpenSettings
                then [ExecuteCommand (ascii ''workbench.action.openSettings'')
                        (ascii ''markdown2weixin'')]
                else []))
         else (Some \<lparr>appid = appid0, appSecret = appSecret0,
                      author = (if truthy author0 then Some author0 else None),
                      digest = (if truthy digest0 then Some digest0 else None)\<rparr>,
               []))"

section \<open>The call of the remote service\<close>

definition apiUrl :: jsstring where
  "apiUrl = ascii ''https://www.fastpen.online/api/draft/multi/import-markdown''"

text \<open>"upload failed"\<close>

definition msgUploadFailed :: jsstring where
  "msgUploadFailed = [0x4E0A, 0x4F20, 0x5931, 0x8D25]"

text \<open>\<^verbatim>\<open>a || b\<close> on optional strings.\<close>

definition or_opt :: "jsstring option \<Rightarrow> jsstring option \<Rightarrow> jsstring option" where
  "or_opt a b = (if truthy_opt a then a else b)"

text \<open>The decimal digits of a status code, as a template literal prints a number.\<close>

definition digit :: "nat \<Rightarrow> cu" where
  "digit d = of_nat (48 + d)"

fun decimal :: "nat \<Rightarrow> jsstring" where
  "decimal n = (if n < 10 then [digit n] else decimal (n div 10) @ [digit (n mod 10)])"

declare decimal.simps [simp del]

text \<open>Reading a decimal number back: the digits and their value.\<close>

definition isDigit :: "cu \<Rightarrow> bool" where
  "isDigit c \<longleftrightarrow> 48 \<le> c \<and> c \<le> 57"

definition undecimal :: "jsstring \<Rightarrow> nat" where
  "undecimal ds = foldl (\<lambda>a d. 10 * a + (unat d - 48)) 0 ds"

text \<open>\<^verbatim>\<open>response.ok\<close>\<close>

definition ok :: "response \<Rightarrow> bool" where
  "ok r \<longleftrightarrow> 200 \<le> status r \<and> status r \<le> 299"

text \<open>The request body, lines 185 to 198.\<close>

definition requestBody :: "jsstring \<Rightarrow> jsstring \<Rightarrow> WeChatConfig \<Rightarrow> (jsstring \<times> jsstring) list" where
  "requestBody markdown title0 config =
     [(ascii ''markdown'', markdown), (ascii ''title'', title0),
      (ascii ''appid'', appid config), (ascii ''app_secret'', appSecret config)]
     @ (case author config of Some a \<Rightarrow> if truthy a then [(ascii ''author'', a)] else [] | None \<Rightarrow> [])
     @ (case digest config of Some d \<Rightarrow> if truthy d then [(ascii ''digest'', d)] else [] | None \<Rightarrow> [])"

text \<open>
  \<^verbatim>\<open>callWeChatApi\<close>, lines 177 to 224: the response or the thrown value, and the
  events of the call. \<open>apiRequest\<close> is the argument of its \<^verbatim>\<open>fetch\<close>.
\<close>

definition apiRequest :: "jsstring \<Rightarrow> jsstring \<Rightarrow> WeChatConfig \<Rightarrow> request" where
  "apiRequest markdown title0 config =
     \<lparr>url = apiUrl, method0 = ascii ''POST'',
      headers = [(ascii ''Content-Type'', ascii ''application/json'')],
      body = requestBody markdown title0 config\<rparr>"

definition callWeChatApi ::
    "host \<Rightarrow> jsstring \<Rightarrow> jsstring \<Rightarrow> WeChatConfig \<Rightarrow> (thrown + ApiResponse) \<times> event list" where
  "callWeChatApi h markdown title0 config =
     (let req = apiRequest markdown title0 config
      in case fetch h req of
           Inl e \<Rightarrow> (Inl e, [Fetch req])
         | Inr resp \<Rightarrow>
             if \<not> ok resp
             then (Inl (Error (ascii ''HTTP '' @ decimal (status resp) @ ascii '': '' @ bodyText resp)),
                   [Fetch req, ResponseText])
             else (case json h (bodyText resp) of
                     Inl e \<Rightarrow> (Inl e, [Fetch req, ResponseJson])
                   | Inr result \<Rightarrow>
                       if \<not> success result
                       then (Inl (Error (or_else (or_opt (error result) (message result)) msgUploadFailed)),
                             [Fetch req, ResponseJson])
                       else (Inr result, [Fetch req, ResponseJson])))"

section \<open>The upload command\<close>

text \<open>
  The messages of \<^verbatim>\<open>uploadToWeChat\<close>, in the order of the source: "open a Markdown file
  first", "the current file is not a Markdown file", "the document is empty and cannot be
  uploaded", "no title can be extracted; make sure the document has a heading or a valid
  file name", "uploading to the WeChat official account...", "preparing the upload...",
  "upload finished".
\<close>

definition msgNoEditor :: jsstring where
  "msgNoEditor =
     [0x8BF7, 0x5148, 0x6253, 0x5F00, 0x4E00, 0x4E2A] @ ascii '' Markdown '' @ [0x6587, 0x4EF6]"

definition msgNotMarkdown :: jsstring where
  "msgNotMarkdown =
     [0x5F53, 0x524D, 0x6587, 0x4EF6, 0x4E0D, 0x662F] @ ascii '' Markdown '' @ [0x6587, 0x4EF6]"

definition msgEmptyDocument :: jsstring where
  "msgEmptyDocument =
     [0x6587, 0x6863, 0x5185, 0x5BB9, 0x4E3A, 0x7A7A, 0xFF0C, 0x65E0, 0x6CD5, 0x4E0A, 0x4F20]"

definition msgNoTitle :: jsstring where
  "msgNoTitle =
     [0x65E0, 0x6CD5, 0x63D0, 0x53D6, 0x6587, 0x7AE0, 0x6807, 0x9898, 0xFF0C, 0x8BF7, 0x786E,
      0x4FDD, 0x6587, 0x6863, 0x5305, 0x542B, 0x6807, 0x9898, 0x6216, 0x6709, 0x6548, 0x6587,
      0x4EF6, 0x540D]"

definition progressTitle :: jsstring where
  "progressTitle =
     [0x6B63, 0x5728, 0x4E0A, 0x4F20, 0x5230, 0x5FAE, 0x4FE1, 0x516C, 0x4F17, 0x53F7] @ ascii ''...''"

definition msgPreparing :: jsstring where
  "msgPreparing = [0x51C6, 0x5907, 0x4E0A, 0x4F20] @ ascii ''...''"

definition msgUploadDone :: jsstring where
  "msgUploadDone = [0x4E0A, 0x4F20, 0x5B8C, 0x6210]"

text \<open>
  The success notification: a check mark, "upload succeeded!", a line feed, "title:", the
  title, a line feed, "Media ID:", the media id; its items "copy Media ID" and "close";
  then "Media ID copied to the clipboard".
\<close>

definition successMessage :: "ApiData \<Rightarrow> jsstring" where
  "successMessage d =
     [0x2705, 0x0020, 0x4E0A, 0x4F20, 0x6210, 0x529F, 0xFF01, 0x000A, 0x6807, 0x9898, 0xFF1A]
     @ title d @ [0x000A] @ ascii ''Media ID'' @ [0xFF1A] @ media_id d"

definition itemCopyMediaId :: jsstring where
  "itemCopyMediaId = [0x590D, 0x5236] @ ascii '' Media ID''"

definition itemClose :: jsstring where
  "itemClose = [0x5173, 0x95ED]"

definition msgCopied :: jsstring where
  "msgCopied = ascii ''Media ID '' @ [0x5DF2, 0x590D, 0x5236, 0x5230, 0x526A, 0x8D34, 0x677F]"

text \<open>"upload succeeded!", the text of the other branch when the response has no message.\<close>

definition msgUploadSucceeded :: jsstring where
  "msgUploadSucceeded = [0x4E0A, 0x4F20, 0x6210, 0x529F, 0xFF01]"

text \<open>
  The handler at the top: a cross mark and "upload failed:" before the message,
  "unknown error" for a thrown value that is no \<^verbatim>\<open>Error\<close>, and "upload error:" on the
  console.
\<close>

definition failurePrefix :: jsstring where
  "failurePrefix = [0x274C, 0x0020, 0x4E0A, 0x4F20, 0x5931, 0x8D25, 0xFF1A]"

definition msgUnknownError :: jsstring where
  "msgUnknownError = [0x672A, 0x77E5, 0x9519, 0x8BEF]"

definition consoleUploadError :: jsstring where
  "consoleUploadError = [0x4E0A, 0x4F20, 0x9519, 0x8BEF, 0xFF1A]"

text \<open>
  The presentation of the result, lines 92 to 107: the branch of
  \<^verbatim>\<open>result.success && result.data\<close> and the other branch.
\<close>

definition presentResult :: "host \<Rightarrow> ApiResponse \<Rightarrow> event list" where
  "presentResult h result =
     (let other = [ShowInformationMessage (or_else (message result) msgUploadSucceeded) []]
      in if success result
         then (case data result of
                 Some d \<Rightarrow>
                   ShowInformationMessage (successMessage d) [itemCopyMediaId, itemClose] #
                   (if pick h (successMessage d) [itemCopyMediaId, itemClose] = Some itemCopyMediaId
                    then [ClipboardWriteText (media_id d), ShowInformationMessage msgCopied []]
                    else [])
               | None \<Rightarrow> other)
         else other)"

text \<open>The \<^verbatim>\<open>catch\<close> of lines 113 to 118.\<close>

definition handleError :: "thrown \<Rightarrow> event list" where
  "handleError e =
     [ShowErrorMessage (failurePrefix @ (case e of Error m \<Rightarrow> m | NonError \<Rightarrow> msgUnknownError)) [],
      ConsoleError consoleUploadError e]"

text \<open>\<^verbatim>\<open>uploadToWeChat\<close>, lines 40 to 119: everything the command does, in order.\<close>

definition uploadToWeChat :: "host \<Rightarrow> event list" where
  "uploadToWeChat h =
     (case getConfiguration h of
        (None, shown) \<Rightarrow> shown
      | (Some config, shown) \<Rightarrow> shown @
          (case activeTextEditor h of
             None \<Rightarrow> [ShowErrorMessage msgNoEditor []]
           | Some doc \<Rightarrow>
               if languageId doc \<noteq> ascii ''markdown'' then [ShowErrorMessage msgNotMarkdown []]
               else
                 let markdown = getText doc
                 in if \<not> truthy (js_trim markdown) then [ShowErrorMessage msgEmptyDocument []]
                    else
                      let title0 = extractTitle doc
                      in if \<not> truthy_opt title0 then [ShowErrorMessage msgNoTitle []]
                         else (case title0 of
                                 None \<Rightarrow> [ShowErrorMessage msgNoTitle []]
                               | Some t \<Rightarrow>
                                   WithProgress progressTitle # ProgressReport 0 msgPreparing #
                                   (case callWeChatApi h markdown t config of
                                      (Inl e, called) \<Rightarrow> called @ handleError e
                                    | (Inr result, called) \<Rightarrow>
                                        called @ ProgressReport 100 msgUploadDone #
                                        presentResult h result))))"

section \<open>The specification's own words\<close>

text \<open>
  Modelled from the specification, for comparison with the source: the base name of a
  path that "ends in \<^verbatim>\<open>.md\<close> (case-insensitive) and has a non-empty basename", "without
  extension, without directory". The directory separators are the slash and the backslash.
\<close>

definition isMdExtension :: "jsstring \<Rightarrow> bool" where
  "isMdExtension e \<longleftrightarrow>
     (case e of
        [x, y, z] \<Rightarrow> x = 0x002E \<and> (y = 0x006D \<or> y = 0x004D) \<and> (z = 0x0064 \<or> z = 0x0044)
      | _ \<Rightarrow> False)"

definition spec_basename :: "jsstring \<Rightarrow> jsstring option" where
  "spec_basename p =
     (let n = length p
      in if 3 \<le> n \<and> isMdExtension (drop (n - 3) p)
         then (let b = rev (takeWhile notSeparator (rev (take (n - 3) p)))
               in if b = [] then None else Some b)
         else None)"

text \<open>
  Modelled from the specification, for comparison with the source: the lines of a text
  (the pieces between line terminators), "a line matching \<^verbatim>\<open># <text>\<close>" (the marker,
  whitespace, one or more characters), and the trimmed text of the first such line.
\<close>

fun spec_lines :: "jsstring \<Rightarrow> jsstring list" where
  "spec_lines [] = [[]]"
| "spec_lines (c # cs) =
     (if isLineTerminator c then [] # spec_lines cs
      else (case spec_lines cs of l # ls \<Rightarrow> (c # l) # ls | [] \<Rightarrow> [[c]]))"

definition spec_heading_of_line :: "jsstring \<Rightarrow> jsstring option" where
  "spec_heading_of_line l =
     (case l of
        m # w # t # ts \<Rightarrow> if m = 0x0023 \<and> isWhiteSpace w then Some (js_trim (t # ts)) else None
      | _ \<Rightarrow> None)"

definition spec_first_heading :: "jsstring \<Rightarrow> jsstring option" where
  "spec_first_heading text0 =
     (case filter (\<lambda>l. spec_heading_of_line l \<noteq> None) (spec_lines text0) of
        [] \<Rightarrow> None
      | l # _ \<Rightarrow> spec_heading_of_line l)"

text \<open>
  Modelled from the specification, for comparison with the source: the chain of the four
  title rules, "evaluated in order, first match wins", with the first rule read as the
  text of the first line of the form \<^verbatim>\<open># <text>\<close>.
\<close>

definition spec_extractTitle :: "document \<Rightarrow> jsstring option" where
  "spec_extractTitle d =
     (case spec_first_heading (getText d) of
        Some h \<Rightarrow> Some h
      | None \<Rightarrow>
          (case spec_basename (fileName d) of
             Some b \<Rightarrow> Some b
           | None \<Rightarrow> if isUntitled d then Some untitledTitle else None))"

section \<open>Observations and concrete inputs\<close>

text \<open>The messages of the error notifications among the events.\<close>

fun errorsShown :: "event list \<Rightarrow> jsstring list" where
  "errorsShown [] = []"
| "errorsShown (ShowErrorMessage m items # es) = m # errorsShown es"
| "errorsShown (e # es) = errorsShown es"

text \<open>
  Modelled from the specification, for comparison with the source: the message of a
  business failure is "the response's error field if present, else its message field if
  present, else a generic fallback string".
\<close>

definition spec_failure_message :: "ApiResponse \<Rightarrow> jsstring" where
  "spec_failure_message r =
     (case error r of Some e \<Rightarrow> e
      | None \<Rightarrow> (case message r of Some m \<Rightarrow> m | None \<Rightarrow> msgUploadFailed))"

text \<open>
  A host whose settings are a table, whose network gives one answer to every request,
  whose JSON parser gives one result and whose user always picks the same item.
\<close>

definition fixedHost :: "(jsstring \<times> jsstring) list \<Rightarrow> document option \<Rightarrow> thrown + response
    \<Rightarrow> thrown + ApiResponse \<Rightarrow> jsstring option \<Rightarrow> host" where
  "fixedHost table doc answer parsed choice =
     \<lparr>settings = map_of table, activeTextEditor = doc, fetch = (\<lambda>_. answer),
      json = (\<lambda>_. parsed), pick = (\<lambda>_ _. choice)\<rparr>"

text \<open>Settings with padded credentials, a blank author and no digest.\<close>

definition paddedSettings :: "(jsstring \<times> jsstring) list" where
  "paddedSettings =
     [(ascii ''appid'', ascii '' wx12 ''), (ascii ''appSecret'', ascii ''s3cret''),
      (ascii ''author'', ascii ''  '')]"

text \<open>Settings whose secret is only whitespace.\<close>

definition blankSecretSettings :: "(jsstring \<times> jsstring) list" where
  "blankSecretSettings = [(ascii ''appid'', ascii ''wx12''), (ascii ''appSecret'', [0x0020, 0x0009])]"

definition markdownDocument :: "jsstring \<Rightarrow> jsstring \<Rightarrow> bool \<Rightarrow> document" where
  "markdownDocument text0 path untitled =
     \<lparr>getText = text0, fileName = path, isUntitled = untitled, languageId = ascii ''markdown''\<rparr>"

text \<open>A marker alone on its line, a line of text, then a heading.\<close>

definition bareMarkerText :: jsstring where
  "bareMarkerText = ascii ''#'' @ [0x000A] @ ascii ''x'' @ [0x000A] @ ascii ''# T''"

text \<open>A marker alone on its line and a line of text: no line is a heading.\<close>

definition bareMarkerParagraph :: jsstring where
  "bareMarkerParagraph = ascii ''#'' @ [0x000A] @ ascii ''x''"

text \<open>The payload of the specification's example response.\<close>

definition examplePayload :: ApiData where
  "examplePayload =
     \<lparr>media_id = ascii ''abc123'', created_at = 1700000000, title = ascii ''T'',
      content_preview = ascii ''P''\<rparr>"

section \<open>Trimming\<close>

lemma dropWhile_fixed: "xs = [] \<or> \<not> P (hd xs) \<Longrightarrow> dropWhile P xs = xs"
  by (cases xs) auto

lemma js_trim_idem: "js_trim (js_trim s) = js_trim s"
proof -
  define t where "t = dropWhile isWhiteSpace s"
  define r where "r = dropWhile isWhiteSpace (rev t)"
  have trim: "js_trim s = rev r"
    by (simp add: js_trim_def t_def r_def)
  have r_hd: "r = [] \<or> \<not> isWhiteSpace (hd r)"
    unfolding r_def by (metis hd_dropWhile)
  have t_hd: "t = [] \<or> \<not> isWhiteSpace (hd t)"
    unfolding t_def by (metis hd_dropWhile)
  have "rev r = [] \<or> \<not> isWhiteSpace (hd (rev r))"
  proof (cases "r = []")
    case True
    then show ?thesis by simp
  next
    case False
    then have ex: "\<exists>x \<in> set (rev t). \<not> isWhiteSpace x"
      unfolding r_def by (auto simp: dropWhile_eq_Nil_conv)
    then obtain x where "x \<in> set (rev t)" "\<not> isWhiteSpace x" by blast
    then have "last r = last (rev t)"
      unfolding r_def by (rule dropWhile_last)
    moreover from ex have "t \<noteq> []" by auto
    ultimately have "last r = hd t"
      by (simp add: last_rev)
    with t_hd \<open>t \<noteq> []\<close> False show ?thesis
      by (simp add: hd_rev)
  qed
  then have "dropWhile isWhiteSpace (rev r) = rev r"
    by (rule dropWhile_fixed)
  moreover from r_hd have "dropWhile isWhiteSpace r = r"
    by (rule dropWhile_fixed)
  ultimately have "js_trim (rev r) = rev r"
    by (simp add: js_trim_def)
  with trim show ?thesis by simp
qed


section \<open>The configuration reader\<close>

text \<open>
  C5. \<^verbatim>\<open>getConfiguration\<close> returns \<^verbatim>\<open>null\<close> exactly when the trimmed
  \<^verbatim>\<open>appid\<close> or the trimmed \<^verbatim>\<open>appSecret\<close> is empty, and then the command does
  nothing beyond what the reader itself shows (no exception reaches the handler).
  Otherwise it returns credentials whose \<^verbatim>\<open>appid\<close> and \<^verbatim>\<open>appSecret\<close> are the
  trimmed settings, non-empty and unchanged by trimming again, and whose \<^verbatim>\<open>author\<close>
  and \<^verbatim>\<open>digest\<close> are absent when their settings trim to the empty string and the
  trimmed settings otherwise.
\<close>

theorem getConfiguration_validates:
  "(fst (getConfiguration h) = None \<longleftrightarrow>
      js_trim (config_get h (ascii ''appid'') []) = [] \<or>
      js_trim (config_get h (ascii ''appSecret'') []) = []) \<and>
   (fst (getConfiguration h) = None \<longrightarrow> uploadToWeChat h = snd (getConfiguration h)) \<and>
   (\<forall>c. fst (getConfiguration h) = Some c \<longrightarrow>
      appid c = js_trim (config_get h (ascii ''appid'') []) \<and> appid c \<noteq> [] \<and>
      js_trim (appid c) = appid c \<and>
      appSecret c = js_trim (config_get h (ascii ''appSecret'') []) \<and> appSecret c \<noteq> [] \<and>
      js_trim (appSecret c) = appSecret c \<and>
      author c = (if js_trim (config_get h (ascii ''author'') []) = [] then None
                  else Some (js_trim (config_get h (ascii ''author'') []))) \<and>
      digest c = (if js_trim (config_get h (ascii ''digest'') []) = [] then None
                  else Some (js_trim (config_get h (ascii ''digest'') []))))"
  by (auto simp: getConfiguration_def Let_def truthy_def js_trim_idem uploadToWeChat_def
      split: if_splits)

theorem getConfiguration_validates_witness:
  "fst (getConfiguration (fixedHost blankSecretSettings None (Inl NonError) (Inl NonError) None)) = None \<and>
   uploadToWeChat (fixedHost blankSecretSettings None (Inl NonError) (Inl NonError) None) =
     [ShowErrorMessage msgConfigure [itemOpenSettings]] \<and>
   fst (getConfiguration (fixedHost paddedSettings None (Inl NonError) (Inl NonError) None)) =
     Some \<lparr>appid = ascii ''wx12'', appSecret = ascii ''s3cret'', author = None, digest = None\<rparr> \<and>
   js_trim (ascii ''wx12'') = ascii ''wx12''"
proof -
  let ?b = "fixedHost blankSecretSettings None (Inl NonError) (Inl NonError) None"
  let ?p = "fixedHost paddedSettings None (Inl NonError) (Inl NonError) None"
  define cfg where
    "cfg = \<lparr>appid = ascii ''wx12'', appSecret = ascii ''s3cret'', author = None, digest = None\<rparr>"
  have b: "getConfiguration ?b = (None, [ShowErrorMessage msgConfigure [itemOpenSettings]])"
    by code_simp
  have p: "getConfiguration ?p =
      (Some \<lparr>appid = ascii ''wx12'', appSecret = ascii ''s3cret'', author = None, digest = None\<rparr>, [])"
    by code_simp
  from b have "fst (getConfiguration ?b) = None" by simp
  with getConfiguration_validates [of ?b]
  have "uploadToWeChat ?b = snd (getConfiguration ?b)" by blast
  with b have u: "uploadToWeChat ?b = [ShowErrorMessage msgConfigure [itemOpenSettings]]"
    by simp
  from p have "fst (getConfiguration ?p) = Some cfg" by (simp add: cfg_def)
  with getConfiguration_validates [of ?p]
  have "js_trim (appid cfg) = appid cfg" by blast
  then have t: "js_trim (ascii ''wx12'') = ascii ''wx12''" by (simp add: cfg_def)
  from b p u t show ?thesis by simp
qed


section \<open>The remote call\<close>

text \<open>
  The message of a transport failure determines the status and the body: the status is
  printed in digits, the colon after it is no digit, and the body follows unchanged.
\<close>

lemma digit_unat: "d < 10 \<Longrightarrow> unat (digit d) = 48 + d"
  unfolding digit_def by (rule of_nat_inverse [OF refl]) simp

lemma digit_isDigit: "d < 10 \<Longrightarrow> isDigit (digit d)"
  by (simp add: isDigit_def word_le_nat_alt digit_unat)

lemma decimal_digits: "list_all isDigit (decimal n)"
proof (induction n rule: decimal.induct)
  case (1 n)
  show ?case
  proof (cases "n < 10")
    case True
    then show ?thesis by (subst decimal.simps) (simp add: digit_isDigit)
  next
    case False
    with "1" have "list_all isDigit (decimal (n div 10))" by simp
    moreover have "isDigit (digit (n mod 10))" by (rule digit_isDigit) simp
    ultimately show ?thesis using False by (subst decimal.simps) simp
  qed
qed

lemma undecimal_decimal: "undecimal (decimal n) = n"
proof (induction n rule: decimal.induct)
  case (1 n)
  show ?case
  proof (cases "n < 10")
    case True
    then show ?thesis by (subst decimal.simps) (simp add: undecimal_def digit_unat)
  next
    case False
    with "1" have "undecimal (decimal (n div 10)) = n div 10" by simp
    moreover have "unat (digit (n mod 10)) = 48 + n mod 10"
      by (rule digit_unat) simp
    ultimately show ?thesis using False
      by (subst decimal.simps) (simp add: undecimal_def)
  qed
qed

lemma decimal_inj: "decimal a = decimal b \<Longrightarrow> a = b"
  by (metis undecimal_decimal)

lemma takeWhile_digits:
  "takeWhile isDigit (decimal n @ ascii '': '' @ b) = decimal n"
proof -
  have "ascii '': '' @ b = 58 # 32 # b" by (simp add: ascii_def)
  moreover have "\<not> isDigit 58" by (simp add: isDigit_def)
  moreover from decimal_digits have "\<And>c. c \<in> set (decimal n) \<Longrightarrow> isDigit c"
    by (simp add: list_all_iff)
  then have "takeWhile isDigit (decimal n @ ascii '': '' @ b) =
      decimal n @ takeWhile isDigit (ascii '': '' @ b)"
    by (rule takeWhile_append2)
  ultimately show ?thesis by simp
qed


lemma http_message_inj:
  assumes "ascii ''HTTP '' @ decimal a @ ascii '': '' @ x = ascii ''HTTP '' @ decimal b @ ascii '': '' @ y"
  shows "a = b \<and> x = y"
proof -
  from assms have e: "decimal a @ ascii '': '' @ x = decimal b @ ascii '': '' @ y"
    by (simp only: same_append_eq)
  then have "takeWhile isDigit (decimal a @ ascii '': '' @ x) =
      takeWhile isDigit (decimal b @ ascii '': '' @ y)"
    by (rule arg_cong)
  then have d: "decimal a = decimal b"
    by (simp only: takeWhile_digits)
  with e have "x = y"
    by (simp only: same_append_eq)
  with d show ?thesis
    by (simp only: decimal_inj)
qed

text \<open>
  C6. When the response of \<^verbatim>\<open>fetch\<close> is not ok (its status lies outside 200..299),
  \<^verbatim>\<open>callWeChatApi\<close> throws an \<^verbatim>\<open>Error\<close> whose message is \<^verbatim>\<open>HTTP\<close>, a space, the
  status in decimal, a colon, a space and then the body text unchanged. It reads the body
  as text and never as JSON: whatever the JSON parser \<open>parser\<close> would do, the outcome is the
  same and the only events are the request and the reading of the text. The message carries
  exactly that status and that body: no other status or body gives the same message.
\<close>

theorem callWeChatApi_http_failure:
  assumes "fetch h (apiRequest markdown t config) = Inr resp" and "\<not> ok resp"
  shows "callWeChatApi (h\<lparr>json := parser\<rparr>) markdown t config =
     (Inl (Error (ascii ''HTTP '' @ decimal (status resp) @ ascii '': '' @ bodyText resp)),
      [Fetch (apiRequest markdown t config), ResponseText]) \<and>
     (\<forall>other. ascii ''HTTP '' @ decimal (status other) @ ascii '': '' @ bodyText other =
               ascii ''HTTP '' @ decimal (status resp) @ ascii '': '' @ bodyText resp \<longrightarrow>
        status other = status resp \<and> bodyText other = bodyText resp)"
proof
  from assms show "callWeChatApi (h\<lparr>json := parser\<rparr>) markdown t config =
     (Inl (Error (ascii ''HTTP '' @ decimal (status resp) @ ascii '': '' @ bodyText resp)),
      [Fetch (apiRequest markdown t config), ResponseText])"
    by (simp add: callWeChatApi_def Let_def)
  show "\<forall>other. ascii ''HTTP '' @ decimal (status other) @ ascii '': '' @ bodyText other =
               ascii ''HTTP '' @ decimal (status resp) @ ascii '': '' @ bodyText resp \<longrightarrow>
        status other = status resp \<and> bodyText other = bodyText resp"
    using http_message_inj by blast
qed

text \<open>Status 500 with the body \<^verbatim>\<open>boom\<close> gives the message \<^verbatim>\<open>HTTP 500: boom\<close>.\<close>

theorem callWeChatApi_http_failure_witness:
  "fetch (fixedHost [] None (Inr \<lparr>status = 500, bodyText = ascii ''boom''\<rparr>) (Inl NonError) None)
     (apiRequest (ascii ''# T'') (ascii ''T'')
        \<lparr>appid = ascii ''wx12'', appSecret = ascii ''s3cret'', author = None, digest = None\<rparr>) =
     Inr \<lparr>status = 500, bodyText = ascii ''boom''\<rparr> \<and>
   \<not> ok \<lparr>status = 500, bodyText = ascii ''boom''\<rparr> \<and>
   fst (callWeChatApi
     (fixedHost [] None (Inr \<lparr>status = 500, bodyText = ascii ''boom''\<rparr>) (Inl NonError) None)
     (ascii ''# T'') (ascii ''T'')
     \<lparr>appid = ascii ''wx12'', appSecret = ascii ''s3cret'', author = None, digest = None\<rparr>) =
     Inl (Error (ascii ''HTTP 500: boom''))"
proof -
  let ?h = "fixedHost [] None (Inr \<lparr>status = 500, bodyText = ascii ''boom''\<rparr>) (Inl NonError) None"
  let ?c = "\<lparr>appid = ascii ''wx12'', appSecret = ascii ''s3cret'', author = None, digest = None\<rparr>"
  have f: "fetch ?h (apiRequest (ascii ''# T'') (ascii ''T'') ?c) =
      Inr \<lparr>status = 500, bodyText = ascii ''boom''\<rparr>"
    by (simp add: fixedHost_def)
  have n: "\<not> ok \<lparr>status = 500, bodyText = ascii ''boom''\<rparr>"
    by (simp add: ok_def)
  have d: "ascii ''HTTP '' @ decimal 500 @ ascii '': '' @ ascii ''boom'' = ascii ''HTTP 500: boom''"
    by code_simp
  have "?h\<lparr>json := json ?h\<rparr> = ?h" by simp
  with callWeChatApi_http_failure [OF f n, of "json ?h", THEN conjunct1] d
  have "fst (callWeChatApi ?h (ascii ''# T'') (ascii ''T'') ?c) = Inl (Error (ascii ''HTTP 500: boom''))"
    by simp
  with f n show ?thesis by simp
qed

text \<open>
  C7, as amended. When the response is ok and its parsed body has a false success flag,
  \<^verbatim>\<open>callWeChatApi\<close> throws an \<^verbatim>\<open>Error\<close> whose message is the error field if that is
  present and not the empty string, else the message field if that is present and not the
  empty string, else "upload failed".
\<close>

theorem callWeChatApi_business_failure:
  assumes "fetch h (apiRequest markdown t config) = Inr resp" and "ok resp"
    and "json h (bodyText resp) = Inr result" and "\<not> success result"
  shows "fst (callWeChatApi h markdown t config) =
     Inl (Error (case error result of
                   Some e \<Rightarrow> if e \<noteq> [] then e
                             else (case message result of
                                     Some m \<Rightarrow> if m \<noteq> [] then m else msgUploadFailed
                                   | None \<Rightarrow> msgUploadFailed)
                 | None \<Rightarrow> (case message result of
                              Some m \<Rightarrow> if m \<noteq> [] then m else msgUploadFailed
                            | None \<Rightarrow> msgUploadFailed)))"
  using assms
  by (simp add: callWeChatApi_def Let_def or_else_def or_opt_def truthy_opt_def truthy_def
      split: option.splits)

text \<open>An empty error field and the message field \<^verbatim>\<open>later\<close>: the message is \<^verbatim>\<open>later\<close>.\<close>

theorem callWeChatApi_business_failure_witness:
  "fetch (fixedHost [] None (Inr \<lparr>status = 200, bodyText = []\<rparr>)
       (Inr \<lparr>success = False, data = None, message = Some (ascii ''later''), error = Some []\<rparr>) None)
     (apiRequest (ascii ''# T'') (ascii ''T'')
        \<lparr>appid = ascii ''wx12'', appSecret = ascii ''s3cret'', author = None, digest = None\<rparr>) =
     Inr \<lparr>status = 200, bodyText = []\<rparr> \<and>
   ok \<lparr>status = 200, bodyText = []\<rparr> \<and>
   \<not> success \<lparr>success = False, data = None, message = Some (ascii ''later''), error = Some []\<rparr> \<and>
   fst (callWeChatApi
     (fixedHost [] None (Inr \<lparr>status = 200, bodyText = []\<rparr>)
       (Inr \<lparr>success = False, data = None, message = Some (ascii ''later''), error = Some []\<rparr>) None)
     (ascii ''# T'') (ascii ''T'')
     \<lparr>appid = ascii ''wx12'', appSecret = ascii ''s3cret'', author = None, digest = None\<rparr>) =
     Inl (Error (ascii ''later''))"
proof -
  let ?r = "\<lparr>success = False, data = None, message = Some (ascii ''later''), error = Some []\<rparr>"
  let ?h = "fixedHost [] None (Inr \<lparr>status = 200, bodyText = []\<rparr>) (Inr ?r) None"
  let ?c = "\<lparr>appid = ascii ''wx12'', appSecret = ascii ''s3cret'', author = None, digest = None\<rparr>"
  have f: "fetch ?h (apiRequest (ascii ''# T'') (ascii ''T'') ?c) = Inr \<lparr>status = 200, bodyText = []\<rparr>"
    by (simp add: fixedHost_def)
  have k: "ok \<lparr>status = 200, bodyText = []\<rparr>"
    by (simp add: ok_def)
  have j: "json ?h (bodyText \<lparr>status = 200, bodyText = []\<rparr>) = Inr ?r"
    by (simp add: fixedHost_def)
  have n: "\<not> success ?r" by simp
  have a: "ascii ''later'' \<noteq> []" by (simp add: ascii_def)
  from callWeChatApi_business_failure [OF f k j n] a
  have "fst (callWeChatApi ?h (ascii ''# T'') (ascii ''T'') ?c) = Inl (Error (ascii ''later''))"
    by simp
  with f k n show ?thesis by simp
qed

text \<open>
  C7 as the specification words it fails on that response: the error field is present
  (it is the empty string), yet the message thrown is the message field, not the error
  field. The operator \<^verbatim>\<open>||\<close> passes over an empty string.
\<close>

theorem failure_message_skips_empty_error:
  "fst (callWeChatApi
     (fixedHost [] None (Inr \<lparr>status = 200, bodyText = []\<rparr>)
       (Inr \<lparr>success = False, data = None, message = Some (ascii ''later''), error = Some []\<rparr>) None)
     (ascii ''# T'') (ascii ''T'')
     \<lparr>appid = ascii ''wx12'', appSecret = ascii ''s3cret'', author = None, digest = None\<rparr>) =
     Inl (Error (ascii ''later'')) \<and>
   spec_failure_message
     \<lparr>success = False, data = None, message = Some (ascii ''later''), error = Some []\<rparr> = [] \<and>
   ascii ''later'' \<noteq> []"
  by (simp add: callWeChatApi_def fixedHost_def ok_def Let_def or_else_def or_opt_def
      truthy_opt_def truthy_def spec_failure_message_def ascii_def)

text \<open>
  C8. When the response is ok and its parsed body has a true success flag and a data
  payload, \<^verbatim>\<open>callWeChatApi\<close> returns the parsed body itself, so every field of the
  payload is as the parser delivered it.
\<close>

theorem callWeChatApi_success:
  assumes "fetch h (apiRequest markdown t config) = Inr resp" and "ok resp"
    and "json h (bodyText resp) = Inr result" and "success result" and "data result = Some d"
  shows "fst (callWeChatApi h markdown t config) = Inr result"
  using assms by (simp add: callWeChatApi_def Let_def)

text \<open>The example response of the specification comes back unchanged.\<close>

theorem callWeChatApi_success_witness:
  "fetch (fixedHost [] None (Inr \<lparr>status = 200, bodyText = []\<rparr>)
       (Inr \<lparr>success = True, data = Some examplePayload, message = None, error = None\<rparr>) None)
     (apiRequest (ascii ''# T'') (ascii ''T'')
        \<lparr>appid = ascii ''wx12'', appSecret = ascii ''s3cret'', author = None, digest = None\<rparr>) =
     Inr \<lparr>status = 200, bodyText = []\<rparr> \<and>
   ok \<lparr>status = 200, bodyText = []\<rparr> \<and>
   fst (callWeChatApi
     (fixedHost [] None (Inr \<lparr>status = 200, bodyText = []\<rparr>)
       (Inr \<lparr>success = True, data = Some examplePayload, message = None, error = None\<rparr>) None)
     (ascii ''# T'') (ascii ''T'')
     \<lparr>appid = ascii ''wx12'', appSecret = ascii ''s3cret'', author = None, digest = None\<rparr>) =
     Inr \<lparr>success = True, data = Some examplePayload, message = None, error = None\<rparr>"
proof -
  let ?r = "\<lparr>success = True, data = Some examplePayload, message = None, error = None\<rparr>"
  let ?h = "fixedHost [] None (Inr \<lparr>status = 200, bodyText = []\<rparr>) (Inr ?r) None"
  let ?c = "\<lparr>appid = ascii ''wx12'', appSecret = ascii ''s3cret'', author = None, digest = None\<rparr>"
  have f: "fetch ?h (apiRequest (ascii ''# T'') (ascii ''T'') ?c) = Inr \<lparr>status = 200, bodyText = []\<rparr>"
    by (simp add: fixedHost_def)
  have k: "ok \<lparr>status = 200, bodyText = []\<rparr>"
    by (simp add: ok_def)
  have j: "json ?h (bodyText \<lparr>status = 200, bodyText = []\<rparr>) = Inr ?r"
    by (simp add: fixedHost_def)
  have s: "success ?r" and d: "data ?r = Some examplePayload" by simp_all
  from callWeChatApi_success [OF f k j s d] f k show ?thesis by simp
qed

subsection \<open>The request body\<close>

lemma map_of_requestBody_required:
  "map_of (requestBody markdown t config) (ascii ''markdown'') = Some markdown"
  "map_of (requestBody markdown t config) (ascii ''title'') = Some t"
  "map_of (requestBody markdown t config) (ascii ''appid'') = Some (appid config)"
  "map_of (requestBody markdown t config) (ascii ''app_secret'') = Some (appSecret config)"
  by (simp_all add: requestBody_def ascii_def)

lemma map_of_requestBody_optional:
  "map_of (requestBody markdown t config) (ascii ''author'') =
     (case author config of Some a \<Rightarrow> if a \<noteq> [] then Some a else None | None \<Rightarrow> None)"
  "map_of (requestBody markdown t config) (ascii ''digest'') =
     (case digest config of Some a \<Rightarrow> if a \<noteq> [] then Some a else None | None \<Rightarrow> None)"
  by (simp_all add: requestBody_def ascii_def truthy_def split: option.splits)

lemma requestBody_keys:
  "map fst (requestBody markdown t config) =
     [ascii ''markdown'', ascii ''title'', ascii ''appid'', ascii ''app_secret'']
     @ (if truthy_opt (author config) then [ascii ''author''] else [])
     @ (if truthy_opt (digest config) then [ascii ''digest''] else [])"
  by (simp add: requestBody_def truthy_opt_def split: option.splits)

lemma getConfiguration_optional:
  assumes "fst (getConfiguration h) = Some config"
  shows "author config \<noteq> Some []" and "digest config \<noteq> Some []"
  using assms by (auto simp: getConfiguration_def Let_def truthy_def split: if_splits)

text \<open>
  C9. \<^verbatim>\<open>callWeChatApi\<close> is called with the credentials that \<^verbatim>\<open>getConfiguration\<close>
  returned. For them, whatever the host of the call, the first event of the call is the
  request \<open>apiRequest\<close>, whose body has the document text under \<^verbatim>\<open>markdown\<close>, the title
  under \<^verbatim>\<open>title\<close>, the credentials under \<^verbatim>\<open>appid\<close> and \<^verbatim>\<open>app_secret\<close>, and has
  \<^verbatim>\<open>author\<close> and \<^verbatim>\<open>digest\<close> exactly when the credentials have them, with their
  values.
\<close>

theorem requestBody_fields:
  assumes "fst (getConfiguration h0) = Some config"
  shows "(\<exists>rest. snd (callWeChatApi h markdown t config) = Fetch (apiRequest markdown t config) # rest) \<and>
    map_of (body (apiRequest markdown t config)) (ascii ''markdown'') = Some markdown \<and>
    map_of (body (apiRequest markdown t config)) (ascii ''title'') = Some t \<and>
    map_of (body (apiRequest markdown t config)) (ascii ''appid'') = Some (appid config) \<and>
    map_of (body (apiRequest markdown t config)) (ascii ''app_secret'') = Some (appSecret config) \<and>
    map_of (body (apiRequest markdown t config)) (ascii ''author'') = author config \<and>
    map_of (body (apiRequest markdown t config)) (ascii ''digest'') = digest config \<and>
    (ascii ''author'' \<in> fst ` set (body (apiRequest markdown t config)) \<longleftrightarrow> author config \<noteq> None) \<and>
    (ascii ''digest'' \<in> fst ` set (body (apiRequest markdown t config)) \<longleftrightarrow> digest config \<noteq> None)"
proof -
  have ev: "\<exists>rest. snd (callWeChatApi h markdown t config) = Fetch (apiRequest markdown t config) # rest"
    by (simp add: callWeChatApi_def Let_def split: sum.splits)
  have b: "body (apiRequest markdown t config) = requestBody markdown t config"
    by (simp add: apiRequest_def)
  from getConfiguration_optional [OF assms]
  have au: "map_of (requestBody markdown t config) (ascii ''author'') = author config"
    and di: "map_of (requestBody markdown t config) (ascii ''digest'') = digest config"
    by (auto simp: map_of_requestBody_optional split: option.splits)
  have k1: "ascii ''author'' \<in> fst ` set (requestBody markdown t config) \<longleftrightarrow> author config \<noteq> None"
    using au by (metis domIff dom_map_of_conv_image_fst)
  have k2: "ascii ''digest'' \<in> fst ` set (requestBody markdown t config) \<longleftrightarrow> digest config \<noteq> None"
    using di by (metis domIff dom_map_of_conv_image_fst)
  show ?thesis
    unfolding b using ev au di k1 k2 by (simp add: map_of_requestBody_required)
qed

text \<open>The credentials read from the padded settings have no author: the body has no such key.\<close>

theorem requestBody_fields_witness:
  "fst (getConfiguration (fixedHost paddedSettings None (Inl NonError) (Inl NonError) None)) =
     Some \<lparr>appid = ascii ''wx12'', appSecret = ascii ''s3cret'', author = None, digest = None\<rparr> \<and>
   map_of (body (apiRequest (ascii ''# T'') (ascii ''T'')
       \<lparr>appid = ascii ''wx12'', appSecret = ascii ''s3cret'', author = None, digest = None\<rparr>))
     (ascii ''app_secret'') = Some (ascii ''s3cret'') \<and>
   ascii ''author'' \<notin> fst ` set (body (apiRequest (ascii ''# T'') (ascii ''T'')
       \<lparr>appid = ascii ''wx12'', appSecret = ascii ''s3cret'', author = None, digest = None\<rparr>))"
proof -
  let ?p = "fixedHost paddedSettings None (Inl NonError) (Inl NonError) None"
  let ?c = "\<lparr>appid = ascii ''wx12'', appSecret = ascii ''s3cret'', author = None, digest = None\<rparr>"
  have "getConfiguration ?p = (Some ?c, [])"
    by code_simp
  then have g: "fst (getConfiguration ?p) = Some ?c" by simp
  from requestBody_fields [OF g, of ?p "ascii ''# T''" "ascii ''T''"] g show ?thesis
    by simp
qed

text \<open>
  The command sends no other request: every request among its events is \<open>apiRequest\<close> for
  the text of the active document, the extracted title and the credentials that
  \<^verbatim>\<open>getConfiguration\<close> returned.
\<close>

lemma getConfiguration_no_fetch: "Fetch req \<notin> set (snd (getConfiguration h))"
  by (simp add: getConfiguration_def Let_def)

lemma presentResult_no_fetch: "Fetch req \<notin> set (presentResult h r)"
  by (simp add: presentResult_def Let_def split: option.splits)

lemma callWeChatApi_fetch:
  "Fetch req \<in> set (snd (callWeChatApi h markdown t config)) \<Longrightarrow> req = apiRequest markdown t config"
  by (auto simp: callWeChatApi_def Let_def split: sum.splits if_splits)

lemma uploadToWeChat_request:
  assumes "Fetch req \<in> set (uploadToWeChat h)"
  shows "\<exists>config doc t. fst (getConfiguration h) = Some config \<and> activeTextEditor h = Some doc \<and>
      extractTitle doc = Some t \<and> req = apiRequest (getText doc) t config"
proof (cases "getConfiguration h")
  case (Pair c shown)
  with getConfiguration_no_fetch [of req h] have nf: "Fetch req \<notin> set shown" by simp
  show ?thesis
  proof (cases c)
    case None
    with Pair nf assms show ?thesis by (simp add: uploadToWeChat_def)
  next
    case (Some config)
    show ?thesis
    proof (cases "activeTextEditor h")
      case None
      with Pair Some nf assms show ?thesis by (simp add: uploadToWeChat_def)
    next
      case doc: (Some doc)
      show ?thesis
      proof (cases "extractTitle doc")
        case None
        with Pair Some doc nf assms show ?thesis
          by (simp add: uploadToWeChat_def Let_def truthy_opt_def split: if_splits)
      next
        case t: (Some t)
        obtain res called where call: "callWeChatApi h (getText doc) t config = (res, called)"
          by (cases "callWeChatApi h (getText doc) t config")
        from Pair Some doc t nf assms call have "Fetch req \<in> set called"
          by (cases res)
            (auto simp: uploadToWeChat_def Let_def handleError_def presentResult_no_fetch
              split: if_splits)
        with call callWeChatApi_fetch [of req h "getText doc" t config]
        have "req = apiRequest (getText doc) t config" by simp
        with Pair Some doc t show ?thesis by simp
      qed
    qed
  qed
qed

section \<open>The presentation of a result\<close>

text \<open>
  C1, as amended. For a result whose success flag is true and whose data payload is
  absent, the presentation shows one information notification, with the message of the
  response if that is present and not the empty string and with "upload succeeded!"
  otherwise; it shows no error notification.
\<close>

theorem presentResult_without_data:
  assumes "success result" and "data result = None"
  shows "presentResult h result =
     [ShowInformationMessage
        (case message result of Some m \<Rightarrow> if m \<noteq> [] then m else msgUploadSucceeded
         | None \<Rightarrow> msgUploadSucceeded) []] \<and>
     errorsShown (presentResult h result) = []"
  using assms by (simp add: presentResult_def or_else_def truthy_def split: option.splits)

text \<open>A result without data and with the message \<^verbatim>\<open>queued\<close>.\<close>

theorem presentResult_without_data_witness:
  "success \<lparr>success = True, data = None, message = Some (ascii ''queued''), error = None\<rparr> \<and>
   data \<lparr>success = True, data = None, message = Some (ascii ''queued''), error = None\<rparr> = None \<and>
   presentResult (fixedHost [] None (Inl NonError) (Inl NonError) None)
     \<lparr>success = True, data = None, message = Some (ascii ''queued''), error = None\<rparr> =
     [ShowInformationMessage (ascii ''queued'') []]"
proof -
  let ?r = "\<lparr>success = True, data = None, message = Some (ascii ''queued''), error = None\<rparr>"
  have s: "success ?r" and d: "data ?r = None" by simp_all
  have a: "ascii ''queued'' \<noteq> []" by (simp add: ascii_def)
  from presentResult_without_data [OF s d, of "fixedHost [] None (Inl NonError) (Inl NonError) None"] a
  show ?thesis by simp
qed

text \<open>
  C1 as the specification words it fails: with valid settings, a Markdown document and a
  response \<^verbatim>\<open>{"success": true}\<close>, the command ends with the information notification
  "upload succeeded!" and shows no error notification at all.
\<close>

theorem success_without_data_shown_as_success:
  "uploadToWeChat
     (fixedHost paddedSettings (Some (markdownDocument (ascii ''# T'') (ascii ''/notes/post.md'') False))
        (Inr \<lparr>status = 200, bodyText = []\<rparr>)
        (Inr \<lparr>success = True, data = None, message = None, error = None\<rparr>) None) =
     [WithProgress progressTitle, ProgressReport 0 msgPreparing,
      Fetch (apiRequest (ascii ''# T'') (ascii ''T'')
        \<lparr>appid = ascii ''wx12'', appSecret = ascii ''s3cret'', author = None, digest = None\<rparr>),
      ResponseJson, ProgressReport 100 msgUploadDone,
      ShowInformationMessage msgUploadSucceeded []] \<and>
   errorsShown (uploadToWeChat
     (fixedHost paddedSettings (Some (markdownDocument (ascii ''# T'') (ascii ''/notes/post.md'') False))
        (Inr \<lparr>status = 200, bodyText = []\<rparr>)
        (Inr \<lparr>success = True, data = None, message = None, error = None\<rparr>) None)) = []"
  by code_simp

section \<open>The matcher\<close>

text \<open>What a greedy repetition returns: a success at some length, or the only possible one.\<close>

lemma tryLens_Some:
  "tryLens f n = Some r \<Longrightarrow> \<exists>k. 1 \<le> k \<and> k \<le> n \<and> f k = Some r"
proof (induction n)
  case 0
  then show ?case by simp
next
  case (Suc n)
  show ?case
  proof (cases "f (Suc n)")
    case None
    with Suc.prems have "tryLens f n = Some r" by simp
    with Suc.IH obtain k where "1 \<le> k" "k \<le> n" "f k = Some r" by blast
    then show ?thesis by (intro exI [of _ k]) simp
  next
    case (Some a)
    with Suc.prems have "f (Suc n) = Some r" by simp
    then show ?thesis by (intro exI [of _ "Suc n"]) simp
  qed
qed

lemma tryLens_None:
  "(\<And>k. 1 \<le> k \<Longrightarrow> k \<le> n \<Longrightarrow> f k = None) \<Longrightarrow> tryLens f n = None"
  by (induction n) simp_all

lemma tryLens_only:
  assumes "1 \<le> k" and "k \<le> n" and "f k = Some r" and "\<And>j. k < j \<Longrightarrow> j \<le> n \<Longrightarrow> f j = None"
  shows "tryLens f n = Some r"
  using assms(2,4)
proof (induction n)
  case 0
  with assms(1) show ?case by simp
next
  case (Suc n)
  show ?case
  proof (cases "k = Suc n")
    case True
    with assms(3) show ?thesis by simp
  next
    case False
    with Suc.prems(1) have le: "k \<le> n" by simp
    then have "f (Suc n) = None" using Suc.prems(2) by simp
    moreover have "tryLens f n = Some r"
      using le Suc.prems(2) by (intro Suc.IH) simp_all
    ultimately show ?thesis by simp
  qed
qed

lemma tryLens_not_None:
  "1 \<le> k \<Longrightarrow> k \<le> n \<Longrightarrow> f k \<noteq> None \<Longrightarrow> tryLens f n \<noteq> None"
proof (induction n)
  case 0
  then show ?case by simp
next
  case (Suc n)
  show ?case
  proof (cases "k = Suc n")
    case True
    with Suc.prems(3) show ?thesis by (auto split: option.splits)
  next
    case False
    with Suc.prems have "tryLens f n \<noteq> None" by (intro Suc.IH) simp_all
    then show ?thesis by (auto split: option.splits)
  qed
qed

lemma length_takeWhile_ge:
  "n \<le> length (takeWhile P s) \<longleftrightarrow> n \<le> length s \<and> (\<forall>c \<in> set (take n s). P c)"
proof (induction s arbitrary: n)
  case Nil
  then show ?case by simp
next
  case (Cons x xs)
  show ?case
  proof (cases n)
    case 0
    then show ?thesis by simp
  next
    case (Suc m)
    with Cons.IH [of m] show ?thesis by simp
  qed
qed

text \<open>A match of \<^verbatim>\<open>exec\<close> is a match of the atoms at some position of the input.\<close>

lemma execFrom_Some:
  "execFrom re prev s = Some g \<Longrightarrow>
     \<exists>pre t. s = pre @ t \<and>
       matchAtoms (multiline re) (atoms re) (if pre = [] then prev else Some (last pre)) t None = Some g"
proof (induction s arbitrary: prev)
  case Nil
  then show ?case by simp
next
  case (Cons x xs)
  show ?case
  proof (cases "matchAtoms (multiline re) (atoms re) prev (x # xs) None")
    case None
    with Cons.prems have "execFrom re (Some x) xs = Some g" by simp
    from Cons.IH [OF this] obtain pre t where xs: "xs = pre @ t"
      and m: "matchAtoms (multiline re) (atoms re) (if pre = [] then Some x else Some (last pre)) t None = Some g"
      by blast
    from xs have "x # xs = (x # pre) @ t" by simp
    moreover from m
    have "matchAtoms (multiline re) (atoms re) (if x # pre = [] then prev else Some (last (x # pre))) t None = Some g"
      by (cases "pre = []") simp_all
    ultimately show ?thesis by blast
  next
    case (Some a)
    with Cons.prems have "matchAtoms (multiline re) (atoms re) prev (x # xs) None = Some g" by simp
    then have "x # xs = [] @ (x # xs) \<and>
        matchAtoms (multiline re) (atoms re) (if ([]::jsstring) = [] then prev else Some (last [])) (x # xs) None = Some g"
      by simp
    then show ?thesis by blast
  qed
qed

lemma execFrom_complete:
  "matchAtoms (multiline re) (atoms re) (if pre = [] then prev else Some (last pre)) t None \<noteq> None
     \<Longrightarrow> execFrom re prev (pre @ t) \<noteq> None"
proof (induction pre arbitrary: prev)
  case Nil
  then show ?case by (cases t) (auto split: option.splits)
next
  case (Cons p ps)
  from Cons.prems
  have "matchAtoms (multiline re) (atoms re) (if ps = [] then Some p else Some (last ps)) t None \<noteq> None"
    by (cases "ps = []") simp_all
  from Cons.IH [OF this] show ?case by (auto split: option.splits)
qed

subsection \<open>The pattern of file names\<close>

lemma isMdExtension_length: "isMdExtension e \<Longrightarrow> length e = 3"
  by (auto simp: isMdExtension_def split: list.splits)

lemma match_extension:
  "matchAtoms False
     [Chr (\<lambda>c. c = 0x002E), Chr (\<lambda>c. c = 0x006D \<or> c = 0x004D),
      Chr (\<lambda>c. c = 0x0064 \<or> c = 0x0044), Eol] prev s g =
   (if isMdExtension s then Some g else None)"
  by (auto simp: isMdExtension_def atLineEnd_def split: list.splits)

lemma match_fileName:
  "matchAtoms False (atoms fileNameRegex) prev s None =
     (if 4 \<le> length s \<and> isMdExtension (drop (length s - 3) s) \<and>
         (\<forall>c \<in> set (take (length s - 3) s). notSeparator c)
      then Some (Some (take (length s - 3) s)) else None)"
proof -
  let ?f = "\<lambda>k. if isMdExtension (drop k s) then Some (Some (take k s)) else None"
  let ?n = "length (takeWhile notSeparator s)"
  let ?k = "length s - 3"
  have m: "matchAtoms False (atoms fileNameRegex) prev s None = tryLens ?f ?n"
    by (simp add: fileNameRegex_def match_extension del: matchAtoms.simps(4))
  have only: "k = ?k \<and> 3 \<le> length s" if "isMdExtension (drop k s)" for k
  proof -
    from isMdExtension_length [OF that] have "length s - k = 3" by simp
    then show ?thesis by arith
  qed
  show ?thesis
  proof (cases "4 \<le> length s \<and> isMdExtension (drop ?k s) \<and> (\<forall>c \<in> set (take ?k s). notSeparator c)")
    case True
    then have "?k \<le> ?n" by (simp add: length_takeWhile_ge)
    moreover from True have "4 \<le> length s" by blast
    then have "1 \<le> ?k" by arith
    moreover from True have "?f ?k = Some (Some (take ?k s))" by simp
    moreover have "?f j = None" if "?k < j" for j
      using only [of j] that by auto
    ultimately have "tryLens ?f ?n = Some (Some (take ?k s))"
      by (intro tryLens_only [of ?k]) simp_all
    with m True show ?thesis by simp
  next
    case False
    have "?f k = None" if "1 \<le> k" "k \<le> ?n" for k
    proof (cases "isMdExtension (drop k s)")
      case ext: True
      from only [OF ext] have k: "k = ?k" "3 \<le> length s" by simp_all
      with that have "4 \<le> length s" by simp
      moreover from k ext have "isMdExtension (drop ?k s)" by simp
      moreover from that(2) k have "\<forall>c \<in> set (take ?k s). notSeparator c"
        by (simp add: length_takeWhile_ge)
      ultimately show ?thesis using False by simp
    next
      case False
      then show ?thesis by simp
    qed
    then have "tryLens ?f ?n = None" by (rule tryLens_None)
    with m False show ?thesis by simp
  qed
qed

lemma spec_basename_Cons:
  assumes "\<not> (4 \<le> length (x # xs) \<and> isMdExtension (drop (length (x # xs) - 3) (x # xs)) \<and>
      (\<forall>c \<in> set (take (length (x # xs) - 3) (x # xs)). notSeparator c))"
  shows "spec_basename (x # xs) = spec_basename xs"
proof (cases "3 \<le> length xs")
  case False
  then have "length xs < 3" by simp
  then show ?thesis
    by (auto simp: spec_basename_def Let_def)
next
  case True
  then obtain m where m: "length xs = m + 3"
    by (metis add.commute le_Suc_ex)
  then have d: "drop (length (x # xs) - 3) (x # xs) = drop (length xs - 3) xs"
    and t: "take (length (x # xs) - 3) (x # xs) = x # take (length xs - 3) xs"
    by simp_all
  show ?thesis
  proof (cases "isMdExtension (drop (length xs - 3) xs)")
    case False
    with d True show ?thesis by (simp add: spec_basename_def Let_def)
  next
    case ext: True
    let ?st = "take (length xs - 3) xs"
    from assms ext d t m have sep: "\<not> notSeparator x \<or> (\<exists>c \<in> set ?st. \<not> notSeparator c)"
      by auto
    have "takeWhile notSeparator (rev ?st @ [x]) = takeWhile notSeparator (rev ?st)"
    proof (cases "\<exists>c \<in> set ?st. \<not> notSeparator c")
      case True
      then obtain c where "c \<in> set (rev ?st)" "\<not> notSeparator c" by auto
      then show ?thesis by (rule takeWhile_append1)
    next
      case False
      with sep have x: "\<not> notSeparator x" by blast
      from False have "\<And>c. c \<in> set (rev ?st) \<Longrightarrow> notSeparator c" by auto
      then have a: "takeWhile notSeparator (rev ?st @ [x]) = rev ?st @ takeWhile notSeparator [x]"
        by (rule takeWhile_append2)
      from False have b: "takeWhile notSeparator (rev ?st) = rev ?st"
        by simp
      from x show ?thesis unfolding a b by simp
    qed
    with d t ext True m show ?thesis
      by (simp add: spec_basename_def Let_def)
  qed
qed

lemma spec_basename_whole:
  assumes "4 \<le> length s" and "isMdExtension (drop (length s - 3) s)"
    and "\<forall>c \<in> set (take (length s - 3) s). notSeparator c"
  shows "spec_basename s = Some (take (length s - 3) s)"
proof -
  define st where "st = take (length s - 3) s"
  from assms(1) have "length st \<noteq> 0" unfolding st_def by simp
  then have ne: "st \<noteq> []" by simp
  from assms(3) have tw: "takeWhile notSeparator (rev st) = rev st"
    unfolding st_def by simp
  from ne assms(1,2) show ?thesis
    unfolding spec_basename_def Let_def st_def [symmetric] tw by simp
qed

lemma execFrom_fileName:
  "execFrom fileNameRegex prev s = map_option Some (spec_basename s)"
proof (induction s arbitrary: prev)
  case Nil
  show ?case
    by (simp add: match_fileName spec_basename_def fileNameRegex_def)
next
  case (Cons x xs)
  let ?s = "x # xs"
  have ml: "multiline fileNameRegex = False" by (simp add: fileNameRegex_def)
  show ?case
  proof (cases "4 \<le> length ?s \<and> isMdExtension (drop (length ?s - 3) ?s) \<and>
      (\<forall>c \<in> set (take (length ?s - 3) ?s). notSeparator c)")
    case True
    then have "matchAtoms False (atoms fileNameRegex) prev ?s None = Some (Some (take (length ?s - 3) ?s))"
      unfolding match_fileName by (rule if_P)
    then have "execFrom fileNameRegex prev ?s = Some (Some (take (length ?s - 3) ?s))"
      by (simp add: ml)
    moreover from True have "spec_basename ?s = Some (take (length ?s - 3) ?s)"
      by (intro spec_basename_whole) blast+
    ultimately show ?thesis by simp
  next
    case False
    then have "matchAtoms False (atoms fileNameRegex) prev ?s None = None"
      unfolding match_fileName by (rule if_not_P)
    then have "execFrom fileNameRegex prev ?s = execFrom fileNameRegex (Some x) xs"
      by (simp add: ml)
    with Cons.IH [of "Some x"] spec_basename_Cons [OF False] show ?thesis by simp
  qed
qed

lemma js_match_fileName: "js_match fileNameRegex p = map_option Some (spec_basename p)"
  by (simp add: js_match_def execFrom_fileName)

subsection \<open>The pattern of headings\<close>

text \<open>
  A match of \<^verbatim>\<open>/^#\s+(.+)$/m\<close> is a marker at the start of the input or after a line
  terminator, then whitespace, then the captured code units, none of them a line
  terminator, up to the end of the input or a line terminator. The whitespace may
  contain line terminators.
\<close>

lemma match_title:
  "matchAtoms True (atoms titleRegex) prev s None =
     (if atLineStart True prev
      then (case s of
              [] \<Rightarrow> None
            | x # xs \<Rightarrow>
                if x = 0x0023
                then tryLens
                       (\<lambda>k. tryLens
                              (\<lambda>j. if atLineEnd True (drop (j + k) xs)
                                   then Some (Some (take j (drop k xs))) else None)
                              (length (takeWhile (\<lambda>c. \<not> isLineTerminator c) (drop k xs))))
                       (length (takeWhile isWhiteSpace xs))
                else None)
      else None)"
  by (simp add: titleRegex_def split: list.splits cong: if_cong)

lemma match_title_shape:
  assumes "matchAtoms True (atoms titleRegex) prev s None = Some g"
  shows "\<exists>ws h rest. g = Some h \<and> s = 0x0023 # ws @ h @ rest \<and> atLineStart True prev \<and>
      ws \<noteq> [] \<and> (\<forall>c \<in> set ws. isWhiteSpace c) \<and>
      h \<noteq> [] \<and> (\<forall>c \<in> set h. \<not> isLineTerminator c) \<and> atLineEnd True rest"
proof -
  from assms have st: "atLineStart True prev"
    by (simp add: match_title split: if_splits)
  from assms st obtain xs where s: "s = 0x0023 # xs"
    by (cases s) (auto simp: match_title split: if_splits)
  let ?inner = "\<lambda>k j. if atLineEnd True (drop (j + k) xs)
      then Some (Some (take j (drop k xs))) else None"
  from assms st s
  have "tryLens (\<lambda>k. tryLens (?inner k) (length (takeWhile (\<lambda>c. \<not> isLineTerminator c) (drop k xs))))
      (length (takeWhile isWhiteSpace xs)) = Some g"
    by (simp add: match_title)
  from tryLens_Some [OF this] obtain k where k: "1 \<le> k" "k \<le> length (takeWhile isWhiteSpace xs)"
    and "tryLens (?inner k) (length (takeWhile (\<lambda>c. \<not> isLineTerminator c) (drop k xs))) = Some g"
    by blast
  from tryLens_Some [OF this(3)] obtain j where j: "1 \<le> j"
    "j \<le> length (takeWhile (\<lambda>c. \<not> isLineTerminator c) (drop k xs))"
    and r: "?inner k j = Some g"
    by blast
  from r have e: "atLineEnd True (drop (j + k) xs)" and g: "g = Some (take j (drop k xs))"
    by (auto split: if_splits)
  from k(2) have kl: "k \<le> length xs" and kw: "\<forall>c \<in> set (take k xs). isWhiteSpace c"
    by (simp_all add: length_takeWhile_ge)
  from j(2) have "j \<le> length (drop k xs) \<and> (\<forall>c \<in> set (take j (drop k xs)). \<not> isLineTerminator c)"
    by (rule iffD1 [OF length_takeWhile_ge])
  then have jl: "j \<le> length (drop k xs)"
    and jw: "\<forall>c \<in> set (take j (drop k xs)). \<not> isLineTerminator c"
    by (rule conjunct1, rule conjunct2)
  have "xs = take k xs @ take j (drop k xs) @ drop (j + k) xs"
    by (metis append_take_drop_id drop_drop)
  with s have "s = 0x0023 # take k xs @ take j (drop k xs) @ drop (j + k) xs" by simp
  moreover from k(1) kl have "take k xs \<noteq> []" by auto
  moreover from j(1) jl have "take j (drop k xs) \<noteq> []" by auto
  ultimately show ?thesis using g st kw jw e by blast
qed

lemma js_match_title_shape:
  assumes "js_match titleRegex s = Some g"
  shows "\<exists>pre ws h rest. g = Some h \<and> s = pre @ 0x0023 # ws @ h @ rest \<and>
      (pre = [] \<or> isLineTerminator (last pre)) \<and>
      ws \<noteq> [] \<and> (\<forall>c \<in> set ws. isWhiteSpace c) \<and>
      h \<noteq> [] \<and> (\<forall>c \<in> set h. \<not> isLineTerminator c) \<and>
      (rest = [] \<or> isLineTerminator (hd rest))"
proof -
  have ml: "multiline titleRegex = True" by (simp add: titleRegex_def)
  from assms have "execFrom titleRegex None s = Some g" by (simp add: js_match_def)
  from execFrom_Some [OF this] obtain pre t where s: "s = pre @ t"
    and m: "matchAtoms True (atoms titleRegex) (if pre = [] then None else Some (last pre)) t None = Some g"
    unfolding ml by blast
  from match_title_shape [OF m] obtain ws h rest where g: "g = Some h"
    and t: "t = 0x0023 # ws @ h @ rest"
    and st: "atLineStart True (if pre = [] then None else Some (last pre))"
    and w: "ws \<noteq> []" "\<forall>c \<in> set ws. isWhiteSpace c"
    and h: "h \<noteq> []" "\<forall>c \<in> set h. \<not> isLineTerminator c"
    and e: "atLineEnd True rest"
    by blast
  from st have "pre = [] \<or> isLineTerminator (last pre)"
    by (auto simp: atLineStart_def split: if_splits)
  moreover from e have "rest = [] \<or> isLineTerminator (hd rest)"
    by (cases rest) (simp_all add: atLineEnd_def)
  moreover from s t have "s = pre @ 0x0023 # ws @ h @ rest" by simp
  ultimately show ?thesis using g w h by blast
qed

lemma js_match_title_group:
  "js_match titleRegex s = Some g \<Longrightarrow> \<exists>h. g = Some h \<and> h \<noteq> []"
  using js_match_title_shape by blast

lemma js_match_fileName_group:
  "js_match fileNameRegex p = Some g \<Longrightarrow> \<exists>b. g = Some b \<and> b \<noteq> []"
  by (auto simp: js_match_fileName spec_basename_def Let_def split: if_splits)

text \<open>
  A line of the form \<^verbatim>\<open># <text>\<close> anywhere in the text makes the pattern match, so
  the title of such a document always comes from the first rule, whatever the path and
  the untitled flag. The match is the leftmost one, which need not be on that line.
\<close>

lemma spec_lines_hd:
  "\<exists>ls. spec_lines s = takeWhile (\<lambda>c. \<not> isLineTerminator c) s # ls"
  by (induction s) auto

lemma spec_lines_tl:
  "l \<in> set (tl (spec_lines s)) \<Longrightarrow>
     \<exists>pre post. s = pre @ l @ post \<and> pre \<noteq> [] \<and> isLineTerminator (last pre) \<and>
       (\<forall>c \<in> set l. \<not> isLineTerminator c)"
proof (induction s)
  case Nil
  then show ?case by simp
next
  case (Cons c cs)
  obtain ls where ls: "spec_lines cs = takeWhile (\<lambda>c. \<not> isLineTerminator c) cs # ls"
    using spec_lines_hd by blast
  show ?case
  proof (cases "isLineTerminator c")
    case True
    with Cons.prems ls have "l = takeWhile (\<lambda>c. \<not> isLineTerminator c) cs \<or> l \<in> set (tl (spec_lines cs))"
      by auto
    then show ?thesis
    proof
      assume l: "l = takeWhile (\<lambda>c. \<not> isLineTerminator c) cs"
      then have "c # cs = [c] @ l @ dropWhile (\<lambda>c. \<not> isLineTerminator c) cs" by simp
      moreover from l have "\<forall>x \<in> set l. \<not> isLineTerminator x"
        by (auto dest: set_takeWhileD)
      ultimately show ?thesis using True
        by (intro exI [of _ "[c]"] exI [of _ "dropWhile (\<lambda>c. \<not> isLineTerminator c) cs"]) simp
    next
      assume "l \<in> set (tl (spec_lines cs))"
      from Cons.IH [OF this] obtain pre post where "cs = pre @ l @ post" "pre \<noteq> []"
        "isLineTerminator (last pre)" "\<forall>c \<in> set l. \<not> isLineTerminator c"
        by blast
      then show ?thesis
        by (intro exI [of _ "c # pre"] exI [of _ post]) simp
    qed
  next
    case False
    with Cons.prems ls have "l \<in> set (tl (spec_lines cs))" by simp
    from Cons.IH [OF this] obtain pre post where "cs = pre @ l @ post" "pre \<noteq> []"
      "isLineTerminator (last pre)" "\<forall>c \<in> set l. \<not> isLineTerminator c"
      by blast
    then show ?thesis
      by (intro exI [of _ "c # pre"] exI [of _ post]) simp
  qed
qed

lemma spec_lines_position:
  assumes "l \<in> set (spec_lines s)"
  shows "\<exists>pre post. s = pre @ l @ post \<and> (pre = [] \<or> isLineTerminator (last pre)) \<and>
      (\<forall>c \<in> set l. \<not> isLineTerminator c)"
proof -
  obtain ls where ls: "spec_lines s = takeWhile (\<lambda>c. \<not> isLineTerminator c) s # ls"
    using spec_lines_hd by blast
  with assms have "l = takeWhile (\<lambda>c. \<not> isLineTerminator c) s \<or> l \<in> set (tl (spec_lines s))"
    by auto
  then show ?thesis
  proof
    assume l: "l = takeWhile (\<lambda>c. \<not> isLineTerminator c) s"
    then have "s = [] @ l @ dropWhile (\<lambda>c. \<not> isLineTerminator c) s" by simp
    moreover from l have "\<forall>x \<in> set l. \<not> isLineTerminator x"
      by (auto dest: set_takeWhileD)
    ultimately show ?thesis by blast
  next
    assume "l \<in> set (tl (spec_lines s))"
    from spec_lines_tl [OF this] show ?thesis by blast
  qed
qed

lemma match_title_heading:
  assumes "atLineStart True prev" and "isWhiteSpace w" and "\<not> isLineTerminator t"
  shows "matchAtoms True (atoms titleRegex) prev (0x0023 # w # t # rest) None \<noteq> None"
proof -
  define xs where "xs = w # t # rest"
  define inner where "inner = (\<lambda>k j. if atLineEnd True (drop (j + k) xs)
      then Some (Some (take j (drop k xs))) else None)"
  define outer where "outer = (\<lambda>k. tryLens (inner k)
      (length (takeWhile (\<lambda>c. \<not> isLineTerminator c) (drop k xs))))"
  define n where "n = length (takeWhile (\<lambda>c. \<not> isLineTerminator c) (t # rest))"
  from assms(3) have n: "1 \<le> n" by (simp add: n_def)
  have "drop n (t # rest) = dropWhile (\<lambda>c. \<not> isLineTerminator c) (t # rest)"
    unfolding n_def by (metis dropWhile_eq_drop)
  moreover have "atLineEnd True (dropWhile (\<lambda>c. \<not> isLineTerminator c) (t # rest))"
  proof (cases "dropWhile (\<lambda>c. \<not> isLineTerminator c) (t # rest)")
    case Nil
    then show ?thesis by (simp only: atLineEnd_def list.case)
  next
    case (Cons y ys)
    then have "isLineTerminator (hd (dropWhile (\<lambda>c. \<not> isLineTerminator c) (t # rest)))"
      by (metis hd_dropWhile list.distinct(1))
    with Cons have "isLineTerminator y" by (simp only: list.sel)
    with Cons show ?thesis by (simp only: atLineEnd_def list.case simp_thms)
  qed
  ultimately have "atLineEnd True (drop n (t # rest))" by (simp only:)
  then have "inner 1 n \<noteq> None" by (simp add: inner_def xs_def)
  with n have "tryLens (inner 1) n \<noteq> None"
    by (rule tryLens_not_None [OF _ le_refl])
  then have o: "outer 1 \<noteq> None"
    by (simp add: outer_def n_def xs_def)
  from assms(2) have "1 \<le> length (takeWhile isWhiteSpace xs)" by (simp add: xs_def)
  with o have "tryLens outer (length (takeWhile isWhiteSpace xs)) \<noteq> None"
    by (intro tryLens_not_None [of 1 _ outer]) simp_all
  moreover from assms(1)
  have "matchAtoms True (atoms titleRegex) prev (0x0023 # xs) None =
      tryLens outer (length (takeWhile isWhiteSpace xs))"
    by (simp add: match_title outer_def inner_def cong: if_cong)
  ultimately show ?thesis
    unfolding xs_def by simp
qed

lemma heading_line_matches:
  assumes "l \<in> set (spec_lines s)" and "spec_heading_of_line l \<noteq> None"
  shows "js_match titleRegex s \<noteq> None"
proof -
  from assms(2) obtain w t ts where l: "l = 0x0023 # w # t # ts" and w: "isWhiteSpace w"
    by (auto simp: spec_heading_of_line_def split: list.splits if_splits)
  from spec_lines_position [OF assms(1)] obtain pre post where s: "s = pre @ l @ post"
    and pre: "pre = [] \<or> isLineTerminator (last pre)"
    and nl: "\<forall>c \<in> set l. \<not> isLineTerminator c"
    by blast
  from nl l have t: "\<not> isLineTerminator t" by simp
  from pre have st: "atLineStart True (if pre = [] then None else Some (last pre))"
    by (auto simp: atLineStart_def)
  have ml: "multiline titleRegex = True" by (simp add: titleRegex_def)
  from match_title_heading [OF st w t, of "ts @ post"]
  have "matchAtoms (multiline titleRegex) (atoms titleRegex)
      (if pre = [] then None else Some (last pre)) (l @ post) None \<noteq> None"
    unfolding ml l by simp
  from execFrom_complete [OF this] show ?thesis
    unfolding js_match_def s .
qed

lemma heading_line_title:
  assumes "spec_first_heading (getText d) \<noteq> None"
  shows "\<exists>h. js_match titleRegex (getText d) = Some (Some h) \<and> extractTitle d = Some (js_trim h)"
proof -
  let ?hs = "filter (\<lambda>l. spec_heading_of_line l \<noteq> None) (spec_lines (getText d))"
  from assms obtain l ls where "?hs = l # ls"
    unfolding spec_first_heading_def by (cases ?hs) simp_all
  then have "l \<in> set ?hs" by simp
  then have "l \<in> set (spec_lines (getText d))" "spec_heading_of_line l \<noteq> None"
    by simp_all
  then have "js_match titleRegex (getText d) \<noteq> None" by (rule heading_line_matches)
  then obtain g where g: "js_match titleRegex (getText d) = Some g" by blast
  from js_match_title_group [OF g] obtain h where "g = Some h" "h \<noteq> []" by blast
  with g show ?thesis
    by (simp add: extractTitle_def Let_def truthy_opt_def truthy_def)
qed

section \<open>The chain of title rules\<close>

text \<open>
  What the source computes: if the heading pattern matches the text, the trimmed capture
  of the leftmost match (which is never \<^verbatim>\<open>undefined\<close>); else, if the path ends in
  \<^verbatim>\<open>.md\<close> in any letter case and has a non-empty base name, that base name
  (\<open>spec_basename\<close>, which is what the pattern of file names computes); else, if the
  document is untitled, the placeholder; else \<^verbatim>\<open>null\<close>. The last three rules are those
  of the specification; the first is the pattern's match, not the first heading line.
\<close>

lemma extractTitle_chain:
  "extractTitle d =
     (case js_match titleRegex (getText d) of
        Some g \<Rightarrow> map_option js_trim g
      | None \<Rightarrow>
          (case spec_basename (fileName d) of
             Some b \<Rightarrow> Some b
           | None \<Rightarrow> if isUntitled d then Some untitledTitle else None)) \<and>
   js_match titleRegex (getText d) \<noteq> Some None \<and>
   js_match fileNameRegex (fileName d) = map_option Some (spec_basename (fileName d))"
proof (cases "js_match titleRegex (getText d)")
  case None
  then show ?thesis
    by (auto simp: extractTitle_def Let_def js_match_fileName truthy_opt_def truthy_def
        spec_basename_def split: option.splits if_splits)
next
  case (Some g)
  from js_match_title_group [OF this] obtain h where "g = Some h" "h \<noteq> []" by blast
  with Some show ?thesis
    by (simp add: extractTitle_def Let_def truthy_opt_def truthy_def js_match_fileName)
qed

text \<open>One document for each of the four rules.\<close>

lemma extractTitle_chain_examples:
  "extractTitle (markdownDocument (ascii ''# Hello '') (ascii ''/notes/post.md'') True) =
     Some (ascii ''Hello'') \<and>
   extractTitle (markdownDocument (ascii ''plain'') (ascii ''/notes/post.md'') True) =
     Some (ascii ''post'') \<and>
   extractTitle (markdownDocument (ascii ''plain'') (ascii ''Untitled-1'') True) =
     Some untitledTitle \<and>
   extractTitle (markdownDocument (ascii ''plain'') (ascii ''/notes/post.txt'') False) = None"
proof -
  let ?d1 = "markdownDocument (ascii ''# Hello '') (ascii ''/notes/post.md'') True"
  let ?d2 = "markdownDocument (ascii ''plain'') (ascii ''/notes/post.md'') True"
  let ?d3 = "markdownDocument (ascii ''plain'') (ascii ''Untitled-1'') True"
  let ?d4 = "markdownDocument (ascii ''plain'') (ascii ''/notes/post.txt'') False"
  have t1: "js_match titleRegex (getText ?d1) = Some (Some (ascii ''Hello ''))"
    by code_simp
  have t2: "js_match titleRegex (ascii ''plain'') = None"
    by code_simp
  have tr: "js_trim (ascii ''Hello '') = ascii ''Hello''"
    by code_simp
  have b2: "spec_basename (ascii ''/notes/post.md'') = Some (ascii ''post'')"
    by code_simp
  have b3: "spec_basename (ascii ''Untitled-1'') = None"
    by code_simp
  have b4: "spec_basename (ascii ''/notes/post.txt'') = None"
    by code_simp
  from extractTitle_chain [of ?d1] t1 tr have "extractTitle ?d1 = Some (ascii ''Hello'')"
    by simp
  moreover from extractTitle_chain [of ?d2] t2 b2 have "extractTitle ?d2 = Some (ascii ''post'')"
    by (simp add: markdownDocument_def)
  moreover from extractTitle_chain [of ?d3] t2 b3 have "extractTitle ?d3 = Some untitledTitle"
    by (simp add: markdownDocument_def)
  moreover from extractTitle_chain [of ?d4] t2 b4 have "extractTitle ?d4 = None"
    by (simp add: markdownDocument_def)
  ultimately show ?thesis by simp
qed

lemma spec_basename_parts:
  assumes "isMdExtension ext" and "b \<noteq> []" and "\<forall>c \<in> set b. notSeparator c"
    and "dir = [] \<or> \<not> notSeparator (last dir)"
  shows "spec_basename (dir @ b @ ext) = Some b"
proof -
  from assms(1) have l: "length ext = 3" by (rule isMdExtension_length)
  then have d: "drop (length (dir @ b @ ext) - 3) (dir @ b @ ext) = ext"
    and t: "take (length (dir @ b @ ext) - 3) (dir @ b @ ext) = dir @ b"
    by simp_all
  from assms(3) have "\<And>c. c \<in> set (rev b) \<Longrightarrow> notSeparator c" by simp
  then have "takeWhile notSeparator (rev b @ rev dir) = rev b @ takeWhile notSeparator (rev dir)"
    by (rule takeWhile_append2)
  moreover from assms(4) have "takeWhile notSeparator (rev dir) = []"
    by (cases dir rule: rev_cases) simp_all
  ultimately have "rev (takeWhile notSeparator (rev (dir @ b))) = b" by simp
  with assms(1,2) l show ?thesis
    unfolding spec_basename_def Let_def d t by simp
qed

text \<open>
  When the heading pattern does not match the text and the path is a directory part
  (empty, or ending in a slash or a backslash), a non-empty base name without separators
  and an extension \<^verbatim>\<open>.md\<close> in any letter case, \<^verbatim>\<open>extractTitle\<close> returns the base name:
  without the extension and without the directory. The hypothesis on the text is the
  pattern's own verdict; it is stronger than the absence of a heading line.
\<close>

lemma extractTitle_basename:
  assumes "js_match titleRegex (getText d) = None"
    and "fileName d = dir @ b @ ext"
    and "isMdExtension ext" and "b \<noteq> []" and "\<forall>c \<in> set b. notSeparator c"
    and "dir = [] \<or> \<not> notSeparator (last dir)"
  shows "extractTitle d = Some b"
proof -
  from assms(2-6) have "spec_basename (fileName d) = Some b"
    by (simp add: spec_basename_parts)
  then have "js_match fileNameRegex (fileName d) = Some (Some b)"
    by (simp add: js_match_fileName)
  with assms(1,4) show ?thesis
    by (simp add: extractTitle_def Let_def truthy_opt_def truthy_def)
qed

text \<open>The path \<^verbatim>\<open>/notes/Post.MD\<close> gives \<^verbatim>\<open>Post\<close>.\<close>

lemma extractTitle_basename_example:
  "js_match titleRegex (getText (markdownDocument (ascii ''plain'') (ascii ''/notes/Post.MD'') True)) = None \<and>
   fileName (markdownDocument (ascii ''plain'') (ascii ''/notes/Post.MD'') True) =
     ascii ''/notes/'' @ ascii ''Post'' @ ascii ''.MD'' \<and>
   isMdExtension (ascii ''.MD'') \<and> ascii ''Post'' \<noteq> [] \<and>
   list_all notSeparator (ascii ''Post'') \<and>
   \<not> notSeparator (last (ascii ''/notes/'')) \<and>
   extractTitle (markdownDocument (ascii ''plain'') (ascii ''/notes/Post.MD'') True) = Some (ascii ''Post'')"
proof -
  let ?d = "markdownDocument (ascii ''plain'') (ascii ''/notes/Post.MD'') True"
  have h1: "js_match titleRegex (getText ?d) = None"
    by code_simp
  have h2: "fileName ?d = ascii ''/notes/'' @ ascii ''Post'' @ ascii ''.MD''"
    by (simp add: markdownDocument_def ascii_def)
  have h3: "isMdExtension (ascii ''.MD'')"
    by (simp add: isMdExtension_def ascii_def)
  have h4: "ascii ''Post'' \<noteq> []"
    by (simp add: ascii_def)
  have h5: "\<forall>c \<in> set (ascii ''Post''). notSeparator c"
    by (simp add: ascii_def notSeparator_def)
  have h6: "\<not> notSeparator (last (ascii ''/notes/''))"
    by (simp add: ascii_def notSeparator_def)
  from h6 have h6': "ascii ''/notes/'' = [] \<or> \<not> notSeparator (last (ascii ''/notes/''))"
    by blast
  from h5 have h5': "list_all notSeparator (ascii ''Post'')"
    by (simp add: list_all_iff)
  from extractTitle_basename [OF h1 h2 h3 h4 h5 h6'] h1 h2 h3 h4 h5' h6 show ?thesis
    by blast
qed

text \<open>
  Where the pattern does not match, the source and the chain of the specification agree.
\<close>

lemma chain_agrees_without_match:
  assumes "js_match titleRegex (getText d) = None"
  shows "extractTitle d = spec_extractTitle d"
proof -
  have "spec_first_heading (getText d) = None"
  proof (cases "spec_first_heading (getText d)")
    case None
    then show ?thesis .
  next
    case (Some h)
    then have "spec_first_heading (getText d) \<noteq> None" by simp
    from heading_line_title [OF this] assms show ?thesis by simp
  qed
  moreover from extractTitle_chain [of d] assms
  have "extractTitle d =
      (case spec_basename (fileName d) of
         Some b \<Rightarrow> Some b
       | None \<Rightarrow> if isUntitled d then Some untitledTitle else None)"
    by simp
  ultimately show ?thesis by (simp add: spec_extractTitle_def)
qed

section \<open>Title extraction on concrete documents\<close>

text \<open>
  C10. For the text made of the marker and two spaces, \<^verbatim>\<open>extractTitle\<close> returns the
  empty string, although the path ends in \<^verbatim>\<open>.md\<close> and the document is flagged as
  untitled; the command then shows the error of a missing title and nothing else, exactly
  as it does for a document for which \<^verbatim>\<open>extractTitle\<close> returns \<^verbatim>\<open>null\<close>.
\<close>

theorem blank_heading_gives_empty_title:
  "extractTitle (markdownDocument (ascii ''#  '') (ascii ''/notes/post.md'') True) = Some [] \<and>
   uploadToWeChat
     (fixedHost paddedSettings (Some (markdownDocument (ascii ''#  '') (ascii ''/notes/post.md'') True))
        (Inl NonError) (Inl NonError) None) = [ShowErrorMessage msgNoTitle []] \<and>
   extractTitle (markdownDocument (ascii ''text'') (ascii ''/notes/post.txt'') False) = None \<and>
   uploadToWeChat
     (fixedHost paddedSettings (Some (markdownDocument (ascii ''text'') (ascii ''/notes/post.txt'') False))
        (Inl NonError) (Inl NonError) None) = [ShowErrorMessage msgNoTitle []]"
  by code_simp

text \<open>
  C3 says that a document with a line of the form \<^verbatim>\<open># <text>\<close> gets the trimmed text
  of its first such line as title. That fails on the text whose lines are \<^verbatim>\<open>#\<close>,
  \<^verbatim>\<open>x\<close> and \<^verbatim>\<open># T\<close>: its first line of that form is the third one, with the text
  \<^verbatim>\<open>T\<close>, but \<^verbatim>\<open>extractTitle\<close> returns \<^verbatim>\<open>x\<close>, because \<^verbatim>\<open>\s+\<close> matches the line
  feed after the bare marker and the group then captures the second line.
\<close>

theorem heading_taken_from_next_line:
  "extractTitle (markdownDocument bareMarkerText (ascii ''/notes/post.md'') False) = Some (ascii ''x'') \<and>
   spec_first_heading bareMarkerText = Some (ascii ''T'')"
  by code_simp

text \<open>
  C2 says that \<^verbatim>\<open>extractTitle\<close> returns the first rule of the chain that applies: the
  text of a heading, else the base name of an \<^verbatim>\<open>.md\<close> path, else the placeholder of an
  untitled document, else \<^verbatim>\<open>null\<close>. That fails on the text whose lines are \<^verbatim>\<open>#\<close>
  and \<^verbatim>\<open>x\<close>, which has no line of the form \<^verbatim>\<open># <text>\<close>: the chain gives the base
  name \<^verbatim>\<open>post\<close> for the path \<^verbatim>\<open>/notes/post.md\<close>, the placeholder for an untitled
  document without such a path, and \<^verbatim>\<open>null\<close> otherwise, but \<^verbatim>\<open>extractTitle\<close> returns
  \<^verbatim>\<open>x\<close> each time, because \<^verbatim>\<open>\s+\<close> matches the line feed after the bare marker.
\<close>

theorem chain_skipped_after_bare_marker:
  "extractTitle (markdownDocument bareMarkerParagraph (ascii ''/notes/post.md'') False) =
     Some (ascii ''x'') \<and>
   spec_extractTitle (markdownDocument bareMarkerParagraph (ascii ''/notes/post.md'') False) =
     Some (ascii ''post'') \<and>
   extractTitle (markdownDocument bareMarkerParagraph (ascii ''Untitled-1'') True) =
     Some (ascii ''x'') \<and>
   spec_extractTitle (markdownDocument bareMarkerParagraph (ascii ''Untitled-1'') True) =
     Some untitledTitle \<and>
   extractTitle (markdownDocument bareMarkerParagraph (ascii ''/notes/post.txt'') False) =
     Some (ascii ''x'') \<and>
   spec_extractTitle (markdownDocument bareMarkerParagraph (ascii ''/notes/post.txt'') False) = None"
  by code_simp

text \<open>
  C4 says that a document without a heading whose path ends in \<^verbatim>\<open>.md\<close> with a
  non-empty base name gets that base name as title. That fails on the same text: none of
  its lines is a heading, the path \<^verbatim>\<open>/notes/post.md\<close> is the directory \<^verbatim>\<open>/notes/\<close>,
  the base name \<^verbatim>\<open>post\<close> and the extension \<^verbatim>\<open>.md\<close>, but \<^verbatim>\<open>extractTitle\<close> returns
  \<^verbatim>\<open>x\<close>, not \<^verbatim>\<open>post\<close>.
\<close>

theorem basename_skipped_after_bare_marker:
  "spec_first_heading bareMarkerParagraph = None \<and>
   ascii ''/notes/post.md'' = ascii ''/notes/'' @ ascii ''post'' @ ascii ''.md'' \<and>
   isMdExtension (ascii ''.md'') \<and>
   list_all notSeparator (ascii ''post'') \<and>
   spec_basename (ascii ''/notes/post.md'') = Some (ascii ''post'') \<and>
   extractTitle (markdownDocument bareMarkerParagraph (ascii ''/notes/post.md'') True) =
     Some (ascii ''x'') \<and>
   ascii ''x'' \<noteq> ascii ''post''"
  by code_simp

end
